theory Spec2Isabelle
  imports Complex_Main "HOL-Library.Word"
begin

section \<open>The ROS subscriber system of drake\_ros\_systems\<close>

text \<open>
  This theory embeds \<^verbatim>\<open>include/drake_ros_systems/ros_subscriber_system.h\<close>: the class
  template \<^verbatim>\<open>RosSubscriberSystem<RosMessage>\<close>, a leaf system that buffers the most recent
  ROS message of a topic and hands it to the simulator through its abstract state.

  The message type \<^verbatim>\<open>RosMessage\<close> is the type variable \<open>'m\<close>; its value-initialised
  object \<^verbatim>\<open>RosMessage{}\<close> is passed where the source builds one. A C++ \<^verbatim>\<open>int\<close> is a
  \<open>32 word\<close>, read as a signed number with \<open>sint\<close>; \<open>+\<close> on it wraps around. The
  standard leaves the overflow of a signed increment undefined; the model takes the
  two's complement result that the increment instruction produces.

  A \<^verbatim>\<open>double\<close> is the type variable \<open>'t\<close>. Its addition and the literal
  \<^verbatim>\<open>0.0001\<close> are parameters (\<open>double_ops\<close>): nothing is assumed about rounding.

  The member functions come twice. First each of them is one function on the state of
  the object, the whole critical section at once, and a harness runs sequences of them
  on a system and a context. Then \<^verbatim>\<open>HandleMessage\<close> and
  \<^verbatim>\<open>ProcessMessageAndStoreToAbstractState\<close> are taken statement by statement, with the
  mutex, for threads whose statements interleave.
\<close>

subsection \<open>Values, state and context of the systems framework\<close>

datatype error = DrakeDemandFailed | IndexOutOfRange | BadValueCast

text \<open>\<^verbatim>\<open>systems::AbstractValue\<close>: a type-erased box. This system stores two kinds of
  value in it, \<^verbatim>\<open>Value<RosMessage>\<close> and \<^verbatim>\<open>Value<int>\<close>.\<close>

datatype 'm AbstractValue = MsgValue 'm | IntValue "32 word"

type_synonym 'm AbstractValues = "'m AbstractValue list"

record ('m, 't) State =
  continuous_state :: "'t list"
  discrete_state :: "'t list list"
  abstract_state :: "'m AbstractValues"

record ('m, 't) Context =
  ctx_time :: 't
  ctx_state :: "('m, 't) State"

datatype TriggerType = kTimed

text \<open>\<^verbatim>\<open>systems::CompositeEventCollection\<close>: one collection for each kind of event; an
  event is represented by its trigger type.\<close>

record CompositeEventCollection =
  publish_events :: "TriggerType list"
  discrete_update_events :: "TriggerType list"
  unrestricted_update_events :: "TriggerType list"

record 't double_ops =
  double_add :: "'t \<Rightarrow> 't \<Rightarrow> 't"
  double_0_0001 :: 't

text \<open>\<^verbatim>\<open>AbstractValues::get_value(i)\<close> and \<^verbatim>\<open>get_mutable_value(i)\<close>: an index outside the
  container is an error.\<close>

definition get_value :: "'m AbstractValues \<Rightarrow> nat \<Rightarrow> error + 'm AbstractValue" where
  "get_value vals i = (if i < length vals then Inr (vals ! i) else Inl IndexOutOfRange)"

text \<open>\<^verbatim>\<open>AbstractValue::GetValue<int>()\<close>: a value of another type is a bad cast.\<close>

fun GetValue_int :: "'m AbstractValue \<Rightarrow> error + 32 word" where
  "GetValue_int (IntValue c) = Inr c"
| "GetValue_int (MsgValue m) = Inl BadValueCast"

text \<open>\<^verbatim>\<open>get_mutable_value(i).GetMutableValue<RosMessage>() = m\<close>\<close>

definition assign_RosMessage ::
  "'m AbstractValues \<Rightarrow> nat \<Rightarrow> 'm \<Rightarrow> error + 'm AbstractValues" where
  "assign_RosMessage vals i m =
     (case get_value vals i of
        Inl e \<Rightarrow> Inl e
      | Inr (MsgValue old) \<Rightarrow> Inr (vals[i := MsgValue m])
      | Inr (IntValue old) \<Rightarrow> Inl BadValueCast)"

text \<open>\<^verbatim>\<open>get_mutable_value(i).GetMutableValue<int>() = c\<close>\<close>

definition assign_int ::
  "'m AbstractValues \<Rightarrow> nat \<Rightarrow> 32 word \<Rightarrow> error + 'm AbstractValues" where
  "assign_int vals i c =
     (case get_value vals i of
        Inl e \<Rightarrow> Inl e
      | Inr (IntValue old) \<Rightarrow> Inr (vals[i := IntValue c])
      | Inr (MsgValue old) \<Rightarrow> Inl BadValueCast)"

text \<open>\<^verbatim>\<open>AbstractValue::SetFrom(other)\<close>: copies the other value into this box, which
  keeps its type; a value of another type is a bad cast.\<close>

fun SetFrom :: "'m AbstractValue \<Rightarrow> 'm AbstractValue \<Rightarrow> error + 'm AbstractValue" where
  "SetFrom (MsgValue old) (MsgValue m) = Inr (MsgValue m)"
| "SetFrom (IntValue old) (IntValue c) = Inr (IntValue c)"
| "SetFrom (MsgValue old) (IntValue c) = Inl BadValueCast"
| "SetFrom (IntValue old) (MsgValue m) = Inl BadValueCast"

definition no_events :: CompositeEventCollection where
  "no_events = \<lparr>publish_events = [], discrete_update_events = [],
                 unrestricted_update_events = []\<rparr>"

text \<open>\<^verbatim>\<open>events->get_mutable_unrestricted_update_events().add_event(e)\<close>\<close>

definition add_unrestricted_update_event ::
  "TriggerType \<Rightarrow> CompositeEventCollection \<Rightarrow> CompositeEventCollection" where
  "add_unrestricted_update_event e evs =
     evs\<lparr>unrestricted_update_events := unrestricted_update_events evs @ [e]\<rparr>"

subsection \<open>The messaging layer\<close>

text \<open>A \<^verbatim>\<open>ros::NodeHandle*\<close> is an address, \<open>0\<close> the null pointer. What
  \<^verbatim>\<open>NodeHandle::subscribe\<close> returns records the topic and the queue size it was given.\<close>

record Subscriber =
  sub_node :: nat
  sub_topic :: string
  sub_queue_size :: nat

definition subscribe :: "nat \<Rightarrow> string \<Rightarrow> nat \<Rightarrow> Subscriber" where
  "subscribe nh tp queue_size =
     \<lparr>sub_node = nh, sub_topic = tp, sub_queue_size = queue_size\<rparr>"

subsection \<open>The class\<close>

text \<open>The data members, named as in the source without the final underscore. The
  condition variable is the list of the threads blocked in its \<^verbatim>\<open>wait\<close>. The mutex
  has no field here: each member function below is one critical section, run as a whole
  (the statements and the mutex are in the subsection on calls that run at the same
  time).\<close>

record 'm RosSubscriberSystem =
  topic :: string
  received_message_condition_variable :: "nat list"
  received_message :: 'm
  received_message_count :: "32 word"
  node_handle :: nat
  subscriber :: Subscriber
  name :: string

definition kStateIndexMessage :: nat where
  "kStateIndexMessage = 0"

definition kStateIndexMessageCount :: nat where
  "kStateIndexMessageCount = 1"

definition make_name :: "string \<Rightarrow> string" where
  "make_name tp = ''RosSubscriberSystem('' @ tp @ '')''"

text \<open>The constructor. \<open>msg0\<close> is \<^verbatim>\<open>RosMessage{}\<close>, the initial value of
  \<^verbatim>\<open>received_message_\<close>. \<^verbatim>\<open>DRAKE_DEMAND\<close> ends the process when its argument is null.\<close>

definition RosSubscriberSystem_ctor ::
  "'m \<Rightarrow> string \<Rightarrow> nat \<Rightarrow> error + 'm RosSubscriberSystem" where
  "RosSubscriberSystem_ctor msg0 tp nh =
     (if nh = 0 then Inl DrakeDemandFailed
      else Inr \<lparr>topic = tp,
                received_message_condition_variable = [],
                received_message = msg0,
                received_message_count = 0,
                node_handle = nh,
                subscriber = subscribe nh tp 100,
                name = make_name tp\<rparr>)"

definition Make :: "'m \<Rightarrow> string \<Rightarrow> nat \<Rightarrow> error + 'm RosSubscriberSystem" where
  "Make msg0 tp nh = RosSubscriberSystem_ctor msg0 tp nh"

definition get_topic_name :: "'m RosSubscriberSystem \<Rightarrow> string" where
  "get_topic_name this = topic this"

text \<open>\<^verbatim>\<open>std::condition_variable\<close>: \<^verbatim>\<open>wait\<close> puts the calling thread among the blocked
  ones, \<^verbatim>\<open>notify_all\<close> unblocks all of them, and a thread that wakes up (notified or
  spuriously) is no longer among them.\<close>

definition cv_wait :: "nat \<Rightarrow> 'm RosSubscriberSystem \<Rightarrow> 'm RosSubscriberSystem" where
  "cv_wait tid this =
     this\<lparr>received_message_condition_variable :=
            received_message_condition_variable this @ [tid]\<rparr>"

definition cv_wake :: "nat \<Rightarrow> 'm RosSubscriberSystem \<Rightarrow> 'm RosSubscriberSystem" where
  "cv_wake tid this =
     this\<lparr>received_message_condition_variable :=
            removeAll tid (received_message_condition_variable this)\<rparr>"

definition notify_all :: "'m RosSubscriberSystem \<Rightarrow> 'm RosSubscriberSystem" where
  "notify_all this = this\<lparr>received_message_condition_variable := []\<rparr>"

text \<open>\<^verbatim>\<open>HandleMessage\<close>, the callback of the subscription.\<close>

definition HandleMessage :: "'m \<Rightarrow> 'm RosSubscriberSystem \<Rightarrow> 'm RosSubscriberSystem" where
  "HandleMessage message this =
     notify_all (this\<lparr>received_message := message,
                      received_message_count := received_message_count this + 1\<rparr>)"

text \<open>Successive calls of the callback, the first payload of the list first.\<close>

fun deliveries :: "'m list \<Rightarrow> 'm RosSubscriberSystem \<Rightarrow> 'm RosSubscriberSystem" where
  "deliveries [] this = this"
| "deliveries (m # ms) this = deliveries ms (HandleMessage m this)"

text \<open>\<^verbatim>\<open>WaitForMessage\<close>, called by thread \<open>tid\<close>. The loop calls \<^verbatim>\<open>wait\<close> while the
  counter equals \<open>old_message_count\<close>. The last argument says what the other threads do
  during the successive calls of \<^verbatim>\<open>wait\<close>, which releases the mutex: its \<open>i\<close>-th element
  lists the payloads delivered between the \<open>i\<close>-th call of \<^verbatim>\<open>wait\<close> and the moment it
  has the mutex again; an empty element is a spurious wake-up. When the list is used up
  and the counter still equals \<open>old_message_count\<close>, the caller stays blocked: the result
  is \<open>None\<close>.\<close>

fun WaitForMessage ::
  "nat \<Rightarrow> 32 word \<Rightarrow> 'm RosSubscriberSystem \<Rightarrow> 'm list list
     \<Rightarrow> 32 word option \<times> 'm RosSubscriberSystem" where
  "WaitForMessage tid old_message_count this [] =
     (if old_message_count = received_message_count this
      then (None, cv_wait tid this)
      else (Some (received_message_count this), this))"
| "WaitForMessage tid old_message_count this (ds # env) =
     (if old_message_count = received_message_count this
      then WaitForMessage tid old_message_count
             (cv_wake tid (deliveries ds (cv_wait tid this))) env
      else (Some (received_message_count this), this))"

text \<open>\<^verbatim>\<open>GetMessageCount\<close>: \<^verbatim>\<open>context.get_abstract_state<int>(kStateIndexMessageCount)\<close>\<close>

definition GetMessageCount ::
  "'m RosSubscriberSystem \<Rightarrow> ('m, 't) Context \<Rightarrow> error + 32 word" where
  "GetMessageCount this context =
     (case get_value (abstract_state (ctx_state context)) kStateIndexMessageCount of
        Inl e \<Rightarrow> Inl e
      | Inr v \<Rightarrow> GetValue_int v)"

text \<open>\<^verbatim>\<open>DoCalcNextUpdateTime\<close> writes through \<^verbatim>\<open>events\<close> and \<^verbatim>\<open>time\<close>; the model returns
  what both hold afterwards.\<close>

definition DoCalcNextUpdateTime ::
  "'t double_ops \<Rightarrow> 'm RosSubscriberSystem \<Rightarrow> ('m, 't) Context
     \<Rightarrow> CompositeEventCollection \<Rightarrow> 't \<Rightarrow> error + CompositeEventCollection \<times> 't" where
  "DoCalcNextUpdateTime D this context events time =
     (case GetMessageCount this context of
        Inl e \<Rightarrow> Inl e
      | Inr last_message_count \<Rightarrow>
          (let received_message_count = received_message_count this in
           if last_message_count \<noteq> received_message_count
           then Inr (add_unrestricted_update_event kTimed events,
                     double_add D (ctx_time context) (double_0_0001 D))
           else Inr (events, time)))"

definition ProcessMessageAndStoreToAbstractState ::
  "'m RosSubscriberSystem \<Rightarrow> 'm AbstractValues \<Rightarrow> error + 'm AbstractValues" where
  "ProcessMessageAndStoreToAbstractState this abstract_values =
     (case assign_RosMessage abstract_values kStateIndexMessage (received_message this) of
        Inl e \<Rightarrow> Inl e
      | Inr vals \<Rightarrow> assign_int vals kStateIndexMessageCount (received_message_count this))"

text \<open>\<^verbatim>\<open>DoCalcUnrestrictedUpdate\<close> writes through \<^verbatim>\<open>state\<close>; the model returns the state
  afterwards.\<close>

definition DoCalcUnrestrictedUpdate ::
  "'m RosSubscriberSystem \<Rightarrow> ('m, 't) Context \<Rightarrow> TriggerType list
     \<Rightarrow> ('m, 't) State \<Rightarrow> error + ('m, 't) State" where
  "DoCalcUnrestrictedUpdate this context events state =
     (case ProcessMessageAndStoreToAbstractState this (abstract_state state) of
        Inl e \<Rightarrow> Inl e
      | Inr vals \<Rightarrow> Inr (state\<lparr>abstract_state := vals\<rparr>))"

definition AllocateOutputValue :: "'m \<Rightarrow> 'm RosSubscriberSystem \<Rightarrow> 'm AbstractValue" where
  "AllocateOutputValue msg0 this = MsgValue msg0"

text \<open>\<^verbatim>\<open>AllocateAbstractState\<close> makes a vector of two entries and sets both.\<close>

definition AllocateAbstractState :: "'m \<Rightarrow> 'm RosSubscriberSystem \<Rightarrow> 'm AbstractValues" where
  "AllocateAbstractState msg0 this =
     ((replicate 2 (IntValue 0))
        [kStateIndexMessage := AllocateOutputValue msg0 this])
        [kStateIndexMessageCount := IntValue 0]"

definition SetDefaultState ::
  "'m RosSubscriberSystem \<Rightarrow> ('m, 't) Context \<Rightarrow> ('m, 't) State \<Rightarrow> error + ('m, 't) State" where
  "SetDefaultState this context state =
     (case ProcessMessageAndStoreToAbstractState this (abstract_state state) of
        Inl e \<Rightarrow> Inl e
      | Inr vals \<Rightarrow> Inr (state\<lparr>abstract_state := vals\<rparr>))"

definition CalcOutputValue ::
  "'m RosSubscriberSystem \<Rightarrow> ('m, 't) Context \<Rightarrow> 'm AbstractValue
     \<Rightarrow> error + 'm AbstractValue" where
  "CalcOutputValue this context output_value =
     (case get_value (abstract_state (ctx_state context)) kStateIndexMessage of
        Inl e \<Rightarrow> Inl e
      | Inr v \<Rightarrow> SetFrom output_value v)"

subsection \<open>Driving the system\<close>

text \<open>What the framework does with the hooks above. A new context gets the state that
  \<^verbatim>\<open>AllocateAbstractState\<close> allocates (a leaf system without continuous or discrete
  state), set by \<^verbatim>\<open>SetDefaultState\<close>.\<close>

definition CreateDefaultContext ::
  "'m \<Rightarrow> 'm RosSubscriberSystem \<Rightarrow> 't \<Rightarrow> error + ('m, 't) Context" where
  "CreateDefaultContext msg0 this t0 =
     (let state0 = \<lparr>continuous_state = [], discrete_state = [],
                     abstract_state = AllocateAbstractState msg0 this\<rparr>;
          context0 = \<lparr>ctx_time = t0, ctx_state = state0\<rparr>
      in case SetDefaultState this context0 state0 of
           Inl e \<Rightarrow> Inl e
         | Inr state1 \<Rightarrow> Inr (context0\<lparr>ctx_state := state1\<rparr>))"

text \<open>A system together with one context of it and the objects its member functions
  write to: the event collection and the time of \<^verbatim>\<open>DoCalcNextUpdateTime\<close>, and the value
  of the output port.\<close>

record ('m, 't) Harness =
  h_system :: "'m RosSubscriberSystem"
  h_context :: "('m, 't) Context"
  h_events :: CompositeEventCollection
  h_time :: 't
  h_output :: "'m AbstractValue"

definition start :: "'m \<Rightarrow> string \<Rightarrow> nat \<Rightarrow> 't \<Rightarrow> error + ('m, 't) Harness" where
  "start msg0 tp nh t0 =
     (case Make msg0 tp nh of
        Inl e \<Rightarrow> Inl e
      | Inr this \<Rightarrow>
          (case CreateDefaultContext msg0 this t0 of
             Inl e \<Rightarrow> Inl e
           | Inr context \<Rightarrow>
               Inr \<lparr>h_system = this, h_context = context, h_events = no_events,
                    h_time = t0, h_output = AllocateOutputValue msg0 this\<rparr>))"

text \<open>The operations: a delivery by the messaging layer (\<^verbatim>\<open>HandleMessage\<close>), a poll
  (\<^verbatim>\<open>DoCalcNextUpdateTime\<close>, on an emptied event collection), a commit
  (\<^verbatim>\<open>DoCalcUnrestrictedUpdate\<close> on the state of the context), the evaluation of the output
  port (\<^verbatim>\<open>CalcOutputValue\<close>), \<^verbatim>\<open>SetDefaultState\<close> on the context, and the advance of the
  context's time.\<close>

datatype ('m, 't) Op = Deliver 'm | Poll | Commit | Output | Reset | Advance 't

fun is_Deliver :: "('m, 't) Op \<Rightarrow> bool" where
  "is_Deliver (Deliver m) = True"
| "is_Deliver Poll = False"
| "is_Deliver Commit = False"
| "is_Deliver Output = False"
| "is_Deliver Reset = False"
| "is_Deliver (Advance t) = False"

fun exec :: "'t double_ops \<Rightarrow> ('m, 't) Op \<Rightarrow> ('m, 't) Harness \<Rightarrow> error + ('m, 't) Harness" where
  "exec D (Deliver m) w = Inr (w\<lparr>h_system := HandleMessage m (h_system w)\<rparr>)"
| "exec D Poll w =
     (case DoCalcNextUpdateTime D (h_system w) (h_context w) no_events (h_time w) of
        Inl e \<Rightarrow> Inl e
      | Inr (events, time) \<Rightarrow> Inr (w\<lparr>h_events := events, h_time := time\<rparr>))"
| "exec D Commit w =
     (case DoCalcUnrestrictedUpdate (h_system w) (h_context w)
             (unrestricted_update_events (h_events w)) (ctx_state (h_context w)) of
        Inl e \<Rightarrow> Inl e
      | Inr state \<Rightarrow> Inr (w\<lparr>h_context := (h_context w)\<lparr>ctx_state := state\<rparr>\<rparr>))"
| "exec D Output w =
     (case CalcOutputValue (h_system w) (h_context w) (h_output w) of
        Inl e \<Rightarrow> Inl e
      | Inr v \<Rightarrow> Inr (w\<lparr>h_output := v\<rparr>))"
| "exec D Reset w =
     (case SetDefaultState (h_system w) (h_context w) (ctx_state (h_context w)) of
        Inl e \<Rightarrow> Inl e
      | Inr state \<Rightarrow> Inr (w\<lparr>h_context := (h_context w)\<lparr>ctx_state := state\<rparr>\<rparr>))"
| "exec D (Advance t) w = Inr (w\<lparr>h_context := (h_context w)\<lparr>ctx_time := t\<rparr>\<rparr>)"

text \<open>A sequence of operations stops at the first error.\<close>

fun run :: "'t double_ops \<Rightarrow> ('m, 't) Op list \<Rightarrow> ('m, 't) Harness \<Rightarrow> error + ('m, 't) Harness" where
  "run D [] w = Inr w"
| "run D (op # ops) w = (case exec D op w of Inl e \<Rightarrow> Inl e | Inr w' \<Rightarrow> run D ops w')"

text \<open>The snapshot: what the two slots of the abstract state of a context hold.\<close>

definition snapshot_message :: "('m, 't) Context \<Rightarrow> error + 'm AbstractValue" where
  "snapshot_message context =
     get_value (abstract_state (ctx_state context)) kStateIndexMessage"

text \<open>\<open>counted n w\<close>: \<open>n\<close> deliveries have been made, the snapshot holds a payload
  and the counter of an earlier moment, and the output port holds a payload.\<close>

definition counted :: "nat \<Rightarrow> ('m, 't) Harness \<Rightarrow> bool" where
  "counted n w \<longleftrightarrow>
     (\<exists>p k q. abstract_state (ctx_state (h_context w)) = [MsgValue p, IntValue (of_nat k)]
        \<and> k \<le> n \<and> received_message_count (h_system w) = of_nat n
        \<and> h_output w = MsgValue q)"

subsection \<open>Calls that run at the same time\<close>

text \<open>\<^verbatim>\<open>HandleMessage\<close> and \<^verbatim>\<open>ProcessMessageAndStoreToAbstractState\<close> statement by statement,
  for threads that run them at the same time on one system. A call is at the statement
  it executes next. The mutex is the thread that holds it, if any; the
  \<^verbatim>\<open>std::lock_guard\<close> takes it in the first statement of either function, which a thread
  cannot execute while another thread holds the mutex, and gives it back at the end of the
  scope, also when an exception leaves the scope.\<close>

datatype HandleMessage_pc =
  HM_lock | HM_store_message | HM_increment | HM_notify_all | HM_unlock | HM_returned

datatype ProcessMessage_pc =
  PM_lock | PM_copy_message | PM_copy_count | PM_unlock | PM_returned

datatype 'm Call =
    In_HandleMessage 'm HandleMessage_pc
  | In_ProcessMessage "'m AbstractValues" ProcessMessage_pc
  | Thrown error

text \<open>\<open>sh_delivered\<close> is not in the source: it lists the payloads of the calls of
  \<^verbatim>\<open>HandleMessage\<close> in the order in which they took the mutex, so that the \<open>k\<close>-th
  delivery can be named.\<close>

record 'm Shared =
  sh_system :: "'m RosSubscriberSystem"
  sh_mutex :: "nat option"
  sh_delivered :: "'m list"

fun step_call :: "nat \<Rightarrow> 'm Call \<Rightarrow> 'm Shared \<Rightarrow> 'm Call \<times> 'm Shared" where
  "step_call tid (In_HandleMessage message HM_lock) sh =
     (if sh_mutex sh = None
      then (In_HandleMessage message HM_store_message,
            sh\<lparr>sh_mutex := Some tid, sh_delivered := sh_delivered sh @ [message]\<rparr>)
      else (In_HandleMessage message HM_lock, sh))"
| "step_call tid (In_HandleMessage message HM_store_message) sh =
     (In_HandleMessage message HM_increment,
      sh\<lparr>sh_system := (sh_system sh)\<lparr>received_message := message\<rparr>\<rparr>)"
| "step_call tid (In_HandleMessage message HM_increment) sh =
     (In_HandleMessage message HM_notify_all,
      sh\<lparr>sh_system := (sh_system sh)
            \<lparr>received_message_count := received_message_count (sh_system sh) + 1\<rparr>\<rparr>)"
| "step_call tid (In_HandleMessage message HM_notify_all) sh =
     (In_HandleMessage message HM_unlock, sh\<lparr>sh_system := notify_all (sh_system sh)\<rparr>)"
| "step_call tid (In_HandleMessage message HM_unlock) sh =
     (In_HandleMessage message HM_returned, sh\<lparr>sh_mutex := None\<rparr>)"
| "step_call tid (In_HandleMessage message HM_returned) sh =
     (In_HandleMessage message HM_returned, sh)"
| "step_call tid (In_ProcessMessage abstract_values PM_lock) sh =
     (if sh_mutex sh = None
      then (In_ProcessMessage abstract_values PM_copy_message, sh\<lparr>sh_mutex := Some tid\<rparr>)
      else (In_ProcessMessage abstract_values PM_lock, sh))"
| "step_call tid (In_ProcessMessage abstract_values PM_copy_message) sh =
     (case assign_RosMessage abstract_values kStateIndexMessage
             (received_message (sh_system sh)) of
        Inl e \<Rightarrow> (Thrown e, sh\<lparr>sh_mutex := None\<rparr>)
      | Inr vals \<Rightarrow> (In_ProcessMessage vals PM_copy_count, sh))"
| "step_call tid (In_ProcessMessage abstract_values PM_copy_count) sh =
     (case assign_int abstract_values kStateIndexMessageCount
             (received_message_count (sh_system sh)) of
        Inl e \<Rightarrow> (Thrown e, sh\<lparr>sh_mutex := None\<rparr>)
      | Inr vals \<Rightarrow> (In_ProcessMessage vals PM_unlock, sh))"
| "step_call tid (In_ProcessMessage abstract_values PM_unlock) sh =
     (In_ProcessMessage abstract_values PM_returned, sh\<lparr>sh_mutex := None\<rparr>)"
| "step_call tid (In_ProcessMessage abstract_values PM_returned) sh =
     (In_ProcessMessage abstract_values PM_returned, sh)"
| "step_call tid (Thrown e) sh = (Thrown e, sh)"

text \<open>The system with the calls in progress; thread \<open>tid\<close> runs the \<open>tid\<close>-th call.\<close>

record 'm Config =
  cf_shared :: "'m Shared"
  cf_calls :: "'m Call list"

definition step_thread :: "nat \<Rightarrow> 'm Config \<Rightarrow> 'm Config" where
  "step_thread tid cf =
     (if tid < length (cf_calls cf)
      then (case step_call tid (cf_calls cf ! tid) (cf_shared cf) of
              (c, sh) \<Rightarrow> \<lparr>cf_shared = sh, cf_calls = (cf_calls cf)[tid := c]\<rparr>)
      else cf)"

text \<open>An interleaving is the list of the threads in the order in which they execute
  one statement each.\<close>

fun interleave :: "nat list \<Rightarrow> 'm Config \<Rightarrow> 'm Config" where
  "interleave [] cf = cf"
| "interleave (tid # schedule) cf = interleave schedule (step_thread tid cf)"

fun not_started :: "'m Call \<Rightarrow> bool" where
  "not_started (In_HandleMessage message pc) = (pc = HM_lock)"
| "not_started (In_ProcessMessage abstract_values pc) = (pc = PM_lock)"
| "not_started (Thrown e) = False"

text \<open>The payload of the \<open>k\<close>-th delivery; the \<open>0\<close>-th is the payload the system held at
  the start.\<close>

definition payload_at :: "'m \<Rightarrow> 'm list \<Rightarrow> nat \<Rightarrow> 'm" where
  "payload_at msg0 delivered k = (if k = 0 then msg0 else delivered ! (k - 1))"

text \<open>The invariant of the interleavings. With the mutex free, the system holds the payload
  and the counter of the last delivery and no call is between its first and its last
  statement. With the mutex held, the holder is the only such call, and the system and
  the holder's copies are as far as the holder's statements have taken them.\<close>

definition consistent :: "'m \<Rightarrow> 32 word \<Rightarrow> 'm list \<Rightarrow> nat \<Rightarrow> 'm RosSubscriberSystem \<Rightarrow> bool" where
  "consistent msg0 c0 delivered k this \<longleftrightarrow>
     received_message this = payload_at msg0 delivered k
     \<and> received_message_count this = c0 + of_nat k"

fun outside :: "'m Call \<Rightarrow> bool" where
  "outside (In_HandleMessage message pc) = (pc = HM_lock \<or> pc = HM_returned)"
| "outside (In_ProcessMessage abstract_values pc) = (pc = PM_lock \<or> pc = PM_returned)"
| "outside (Thrown e) = True"

fun holder_ok :: "'m \<Rightarrow> 32 word \<Rightarrow> 'm Shared \<Rightarrow> 'm Call \<Rightarrow> bool" where
  "holder_ok msg0 c0 sh (In_HandleMessage message pc) =
     (let h = sh_delivered sh; this = sh_system sh in
      if pc = HM_store_message
      then h \<noteq> [] \<and> last h = message \<and> consistent msg0 c0 h (length h - 1) this
      else if pc = HM_increment
      then h \<noteq> [] \<and> last h = message \<and> received_message this = message
           \<and> received_message_count this = c0 + of_nat (length h - 1)
      else if pc = HM_notify_all \<or> pc = HM_unlock
      then consistent msg0 c0 h (length h) this
      else False)"
| "holder_ok msg0 c0 sh (In_ProcessMessage abstract_values pc) =
     (let h = sh_delivered sh; this = sh_system sh in
      if pc = PM_copy_message
      then consistent msg0 c0 h (length h) this
      else if pc = PM_copy_count
      then consistent msg0 c0 h (length h) this
           \<and> kStateIndexMessage < length abstract_values
           \<and> abstract_values ! kStateIndexMessage = MsgValue (received_message this)
      else if pc = PM_unlock
      then consistent msg0 c0 h (length h) this
           \<and> abstract_values ! kStateIndexMessage = MsgValue (received_message this)
           \<and> abstract_values ! kStateIndexMessageCount
               = IntValue (received_message_count this)
      else False)"
| "holder_ok msg0 c0 sh (Thrown e) = False"

fun read_ok :: "'m \<Rightarrow> 32 word \<Rightarrow> 'm list \<Rightarrow> 'm Call \<Rightarrow> bool" where
  "read_ok msg0 c0 h (In_ProcessMessage abstract_values pc) =
     (pc = PM_returned \<longrightarrow>
        (\<exists>k\<le>length h.
            abstract_values ! kStateIndexMessage = MsgValue (payload_at msg0 h k)
          \<and> abstract_values ! kStateIndexMessageCount = IntValue (c0 + of_nat k)))"
| "read_ok msg0 c0 h (In_HandleMessage message pc) = True"
| "read_ok msg0 c0 h (Thrown e) = True"

definition interleaving_invariant :: "'m \<Rightarrow> 32 word \<Rightarrow> 'm Config \<Rightarrow> bool" where
  "interleaving_invariant msg0 c0 cf \<longleftrightarrow>
     (let sh = cf_shared cf; calls = cf_calls cf in
        (case sh_mutex sh of
           None \<Rightarrow> consistent msg0 c0 (sh_delivered sh) (length (sh_delivered sh)) (sh_system sh)
                    \<and> (\<forall>j<length calls. outside (calls ! j))
         | Some i \<Rightarrow> i < length calls \<and> holder_ok msg0 c0 sh (calls ! i)
                    \<and> (\<forall>j<length calls. j \<noteq> i \<longrightarrow> outside (calls ! j)))
        \<and> (\<forall>j<length calls. read_ok msg0 c0 (sh_delivered sh) (calls ! j)))"

subsection \<open>Scenarios\<close>

text \<open>Concrete systems and runs, with text payloads, for the closed instances of the
  theorems. Their time is a rational number and their \<open>double_ops\<close> add exactly; the
  only sum that occurs, \<open>0 + 0.0001\<close>, stands for the double \<^verbatim>\<open>0.0001\<close>.\<close>

definition exact_ops :: "rat double_ops" where
  "exact_ops = \<lparr>double_add = (+), double_0_0001 = 1 / 10000\<rparr>"

definition chatter_start :: "(string, rat) Harness" where
  "chatter_start =
     \<lparr>h_system = \<lparr>topic = ''chatter'', received_message_condition_variable = [],
          received_message = '''', received_message_count = 0,
          node_handle = 1, subscriber = subscribe 1 ''chatter'' 100,
          name = make_name ''chatter''\<rparr>,
      h_context = \<lparr>ctx_time = 0,
          ctx_state = \<lparr>continuous_state = [], discrete_state = [],
            abstract_state = [MsgValue '''', IntValue 0]\<rparr>\<rparr>,
      h_events = no_events, h_time = 0, h_output = MsgValue ''''\<rparr>"

definition chatter_A_then_B :: "(string, rat) Harness" where
  "chatter_A_then_B =
     chatter_start
       \<lparr>h_system := deliveries [''A'', ''B''] (h_system chatter_start),
        h_context := \<lparr>ctx_time = 1,
          ctx_state = \<lparr>continuous_state = [], discrete_state = [],
            abstract_state = [MsgValue ''A'', IntValue 1]\<rparr>\<rparr>,
        h_events := add_unrestricted_update_event kTimed no_events,
        h_time := 1 / 10000\<rparr>"

definition chatter_three :: "(string, rat) Harness" where
  "chatter_three =
     chatter_start
       \<lparr>h_system := deliveries [''A'', ''B'', ''C''] (h_system chatter_start),
        h_context := \<lparr>ctx_time = 0,
          ctx_state = \<lparr>continuous_state = [], discrete_state = [],
            abstract_state = [MsgValue ''A'', IntValue 1]\<rparr>\<rparr>,
        h_events := add_unrestricted_update_event kTimed no_events,
        h_time := 1 / 10000\<rparr>"

definition chatter_synced :: "(string, rat) Harness" where
  "chatter_synced =
     chatter_start
       \<lparr>h_system := deliveries [''A''] (h_system chatter_start),
        h_context := \<lparr>ctx_time = 0,
          ctx_state = \<lparr>continuous_state = [], discrete_state = [],
            abstract_state = [MsgValue ''A'', IntValue 1]\<rparr>\<rparr>,
        h_events := add_unrestricted_update_event kTimed no_events,
        h_time := 1 / 10000\<rparr>"

definition chatter_wrapped :: "(string, rat) Harness" where
  "chatter_wrapped =
     chatter_start
       \<lparr>h_system := (h_system chatter_start)
          \<lparr>received_message := ''A'', received_message_count := 2147483648\<rparr>,
        h_context := \<lparr>ctx_time = 0,
          ctx_state = \<lparr>continuous_state = [], discrete_state = [],
            abstract_state = [MsgValue ''A'', IntValue 2147483647]\<rparr>\<rparr>\<rparr>"

definition chatter_polled_2_31 :: "(string, rat) Harness" where
  "chatter_polled_2_31 =
     chatter_start
       \<lparr>h_system := (h_system chatter_start)
          \<lparr>received_message := ''A'', received_message_count := 2147483648\<rparr>,
        h_context := \<lparr>ctx_time = 0,
          ctx_state = \<lparr>continuous_state = [], discrete_state = [],
            abstract_state = [MsgValue ''A'', IntValue 2147483648]\<rparr>\<rparr>,
        h_events := add_unrestricted_update_event kTimed no_events,
        h_time := 1 / 10000\<rparr>"

definition chatter_polled_BC :: "(string, rat) Harness" where
  "chatter_polled_BC =
     chatter_start
       \<lparr>h_system := deliveries [''B'', ''C''] (h_system chatter_start),
        h_events := add_unrestricted_update_event kTimed no_events,
        h_time := 1 / 10000\<rparr>"

definition chatter_committed_BC :: "(string, rat) Harness" where
  "chatter_committed_BC =
     chatter_polled_BC
       \<lparr>h_context := \<lparr>ctx_time = 0,
          ctx_state = \<lparr>continuous_state = [], discrete_state = [],
            abstract_state = [MsgValue ''C'', IntValue 2]\<rparr>\<rparr>\<rparr>"

definition chatter_system_at_max :: "string RosSubscriberSystem" where
  "chatter_system_at_max =
     \<lparr>topic = ''chatter'', received_message_condition_variable = [],
      received_message = ''A'', received_message_count = 2147483647,
      node_handle = 1, subscriber = subscribe 1 ''chatter'' 100,
      name = make_name ''chatter''\<rparr>"

definition chatter_system :: "string RosSubscriberSystem" where
  "chatter_system =
     \<lparr>topic = ''chatter'', received_message_condition_variable = [],
      received_message = '''', received_message_count = 0,
      node_handle = 1, subscriber = subscribe 1 ''chatter'' 100,
      name = make_name ''chatter''\<rparr>"

definition chatter_all_operations :: "(string, rat) Harness" where
  "chatter_all_operations =
     chatter_start
       \<lparr>h_system := deliveries [''A'', ''B''] (h_system chatter_start),
        h_context := \<lparr>ctx_time = 2,
          ctx_state = \<lparr>continuous_state = [], discrete_state = [],
            abstract_state = [MsgValue ''B'', IntValue 2]\<rparr>\<rparr>,
        h_events := add_unrestricted_update_event kTimed no_events,
        h_time := 1 / 10000,
        h_output := MsgValue ''A''\<rparr>"

definition chatter_state3 :: "(string, rat) State" where
  "chatter_state3 =
     \<lparr>continuous_state = [1 / 2], discrete_state = [[3]],
      abstract_state = [MsgValue ''old'', IntValue 7, IntValue 9]\<rparr>"

definition race_start :: "string Config" where
  "race_start =
     \<lparr>cf_shared = \<lparr>sh_system = chatter_system, sh_mutex = None, sh_delivered = []\<rparr>,
      cf_calls = [In_HandleMessage ''A'' HM_lock, In_HandleMessage ''B'' HM_lock,
                  In_ProcessMessage [MsgValue '''', IntValue 0] PM_lock]\<rparr>"

definition race_end :: "string Config" where
  "race_end =
     \<lparr>cf_shared = \<lparr>sh_system = chatter_system\<lparr>received_message := ''B'',
                                                received_message_count := 2\<rparr>,
                    sh_mutex = None, sh_delivered = [''A'', ''B'']\<rparr>,
      cf_calls = [In_HandleMessage ''A'' HM_returned, In_HandleMessage ''B'' HM_returned,
                  In_ProcessMessage [MsgValue ''A'', IntValue 1] PM_returned]\<rparr>"

section \<open>Auxiliary facts\<close>

subsection \<open>Deliveries, words and runs\<close>

lemma HandleMessage_simps:
  "received_message (HandleMessage m this) = m"
  "received_message_count (HandleMessage m this) = received_message_count this + 1"
  "received_message_condition_variable (HandleMessage m this) = []"
  by (simp_all add: HandleMessage_def notify_all_def)

lemma count_deliveries:
  "received_message_count (deliveries ms this) = received_message_count this + of_nat (length ms)"
  by (induction ms arbitrary: this) (simp_all add: HandleMessage_simps)

lemma message_deliveries:
  "ms \<noteq> [] \<Longrightarrow> received_message (deliveries ms this) = last ms"
  by (induction ms arbitrary: this) (auto simp: HandleMessage_simps)

lemma run_append:
  "run D (xs @ ys) w = (case run D xs w of Inl e \<Rightarrow> Inl e | Inr w' \<Rightarrow> run D ys w')"
  by (induction xs arbitrary: w) (simp_all split: sum.splits)

lemma run_Deliver:
  "run D (map Deliver ms) w = Inr (w\<lparr>h_system := deliveries ms (h_system w)\<rparr>)"
  by (induction ms arbitrary: w) simp_all

lemma sint_of_nat_small:
  assumes "n < 2 ^ 31"
  shows "sint (of_nat n :: 32 word) = int n"
proof -
  have "sint (of_nat n :: 32 word) = signed_take_bit 31 (int n)"
    using signed_of_nat [where ?'b = 32 and ?'a = int, of n] by simp
  also have "\<dots> = int n"
    using assms by (intro signed_take_bit_int_eq_self) simp_all
  finally show ?thesis .
qed

lemma sint_succ:
  fixes x :: "32 word"
  assumes "sint x \<noteq> 2 ^ 31 - 1"
  shows "sint (x + 1) = sint x + 1"
proof -
  have lt: "sint x < 2 ^ 31" and ge: "- (2 ^ 31) \<le> sint x"
    using sint_lt [of x] sint_ge [of x] by simp_all
  have "sint (x + 1) = signed_take_bit 31 (sint x + 1)"
    by (simp add: sint_word_add)
  also have "\<dots> = sint x + 1"
    using assms lt ge by (intro signed_take_bit_int_eq_self) simp_all
  finally show ?thesis .
qed

lemma uint_succ: "uint (x + 1 :: 32 word) = (uint x + 1) mod 2 ^ 32"
  by (simp add: uint_word_ariths)

lemma ProcessMessage_two_slots:
  "ProcessMessageAndStoreToAbstractState this [MsgValue p, IntValue c] =
     Inr [MsgValue (received_message this), IntValue (received_message_count this)]"
  by (simp add: ProcessMessageAndStoreToAbstractState_def assign_RosMessage_def
      assign_int_def get_value_def kStateIndexMessage_def kStateIndexMessageCount_def)

lemma AllocateAbstractState_eq:
  "AllocateAbstractState msg0 this = [MsgValue msg0, IntValue 0]"
  by (simp add: AllocateAbstractState_def AllocateOutputValue_def kStateIndexMessage_def
      kStateIndexMessageCount_def numeral_2_eq_2)

lemma start_eq:
  "start msg0 tp nh t0 =
     (if nh = 0 then Inl DrakeDemandFailed
      else Inr \<lparr>h_system = \<lparr>topic = tp, received_message_condition_variable = [],
                    received_message = msg0, received_message_count = 0,
                    node_handle = nh, subscriber = subscribe nh tp 100,
                    name = make_name tp\<rparr>,
                 h_context = \<lparr>ctx_time = t0,
                    ctx_state = \<lparr>continuous_state = [], discrete_state = [],
                      abstract_state = [MsgValue msg0, IntValue 0]\<rparr>\<rparr>,
                 h_events = no_events, h_time = t0, h_output = MsgValue msg0\<rparr>)"
  by (simp add: start_def Make_def RosSubscriberSystem_ctor_def CreateDefaultContext_def
      SetDefaultState_def AllocateAbstractState_eq ProcessMessage_two_slots
      AllocateOutputValue_def)

lemma start_counted: "start msg0 tp nh t0 = Inr w0 \<Longrightarrow> counted 0 w0"
  by (auto simp: start_eq counted_def split: if_splits intro: exI [of _ 0])

lemma exec_counted:
  assumes "counted n w"
  shows "\<exists>w'. exec D op w = Inr w' \<and> counted (if is_Deliver op then Suc n else n) w'"
proof -
  from assms obtain p k q where
    abs: "abstract_state (ctx_state (h_context w)) = [MsgValue p, IntValue (of_nat k)]"
    and k: "k \<le> n" and live: "received_message_count (h_system w) = of_nat n"
    and out: "h_output w = MsgValue q"
    unfolding counted_def by blast
  show ?thesis
  proof (cases op)
    case (Deliver m)
    with abs k live out show ?thesis
      by (auto simp: counted_def HandleMessage_simps intro!: exI [of _ k])
  next
    case Poll
    with abs k live out show ?thesis
      by (auto simp: counted_def DoCalcNextUpdateTime_def GetMessageCount_def get_value_def
          kStateIndexMessageCount_def Let_def)
  next
    case Commit
    with abs k live out show ?thesis
      by (auto simp: counted_def DoCalcUnrestrictedUpdate_def ProcessMessage_two_slots
          intro!: exI [of _ n])
  next
    case Output
    with abs k live out show ?thesis
      by (auto simp: counted_def CalcOutputValue_def get_value_def kStateIndexMessage_def)
  next
    case Reset
    with abs k live out show ?thesis
      by (auto simp: counted_def SetDefaultState_def ProcessMessage_two_slots
          intro!: exI [of _ n])
  next
    case (Advance t)
    with abs k live out show ?thesis
      by (auto simp: counted_def)
  qed
qed

lemma run_counted:
  "counted n w \<Longrightarrow>
     \<exists>w'. run D ops w = Inr w' \<and> counted (n + length (filter is_Deliver ops)) w'"
proof (induction ops arbitrary: n w)
  case Nil
  then show ?case by simp
next
  case (Cons op ops)
  from exec_counted [OF Cons.prems, of D op] obtain w1 where
    e: "exec D op w = Inr w1" and c: "counted (if is_Deliver op then Suc n else n) w1"
    by blast
  from Cons.IH [OF c] e show ?case
    by (cases "is_Deliver op") auto
qed

lemma reachable_counted:
  assumes "start msg0 tp nh t0 = Inr w0" and "run D ops w0 = Inr w"
  shows "counted (length (filter is_Deliver ops)) w"
  using run_counted [OF start_counted [OF assms(1)], of D ops] assms(2) by simp

subsection \<open>The scenarios\<close>

lemma chatter_start: "start '''' ''chatter'' 1 0 = Inr chatter_start"
  by (simp add: start_eq chatter_start_def)

lemmas harness_eval =
  DoCalcNextUpdateTime_def GetMessageCount_def get_value_def
  DoCalcUnrestrictedUpdate_def SetDefaultState_def ProcessMessage_two_slots
  CalcOutputValue_def kStateIndexMessage_def kStateIndexMessageCount_def
  HandleMessage_def notify_all_def add_unrestricted_update_event_def no_events_def
  snapshot_message_def

subsection \<open>Long runs of deliveries\<close>

lemma run_replicate_Deliver:
  "run D (replicate n (Deliver m)) w
     = Inr (w\<lparr>h_system := deliveries (replicate n m) (h_system w)\<rparr>)"
  using run_Deliver [of D "replicate n m" w] by simp

lemma deliveries_eq:
  "ms \<noteq> [] \<Longrightarrow>
     deliveries ms this =
       this\<lparr>received_message_condition_variable := [],
            received_message := last ms,
            received_message_count := received_message_count this + of_nat (length ms)\<rparr>"
proof (induction ms arbitrary: this)
  case Nil
  then show ?case by simp
next
  case (Cons m ms)
  show ?case
  proof (cases "ms = []")
    case True
    then show ?thesis
      by (simp add: HandleMessage_def notify_all_def)
  next
    case False
    from Cons.IH [OF False, of "HandleMessage m this"] False show ?thesis
      by (simp add: HandleMessage_def notify_all_def add.assoc)
  qed
qed

lemma start_snapshot:
  assumes "start msg0 tp nh t0 = Inr w0"
  shows "abstract_state (ctx_state (h_context w0)) = [MsgValue msg0, IntValue 0]"
    and "received_message_count (h_system w0) = 0"
    and "h_time w0 = t0" and "ctx_time (h_context w0) = t0"
  using assms by (auto simp: start_eq split: if_splits)

lemma chatter_system: "RosSubscriberSystem_ctor '''' ''chatter'' 1 = Inr chatter_system"
  by (simp add: RosSubscriberSystem_ctor_def chatter_system_def)

lemma chatter_system_at_max:
  "deliveries (replicate (2 ^ 31 - 1) ''A'') chatter_system = chatter_system_at_max"
  by (subst deliveries_eq) (simp_all add: chatter_system_def chatter_system_at_max_def)

subsection \<open>Waiting for a message\<close>

lemma cv_simps:
  "received_message_count (cv_wait tid this) = received_message_count this"
  "received_message_count (cv_wake tid this) = received_message_count this"
  "received_message (cv_wait tid this) = received_message this"
  "received_message (cv_wake tid this) = received_message this"
  by (simp_all add: cv_wait_def cv_wake_def)

lemma exec_keeps_system:
  "\<not> is_Deliver op \<Longrightarrow> exec D op w = Inr w' \<Longrightarrow> h_system w' = h_system w"
  by (cases op) (auto split: sum.splits)

lemma WaitForMessage_wake:
  "old = received_message_count this \<Longrightarrow>
     WaitForMessage tid old this (ds # env)
       = WaitForMessage tid old (cv_wake tid (deliveries ds (cv_wait tid this))) env"
  by simp

lemma WaitForMessage_spurious_count:
  "received_message_count (snd (WaitForMessage tid old this (replicate k [])))
     = received_message_count this"
proof (induction k arbitrary: this)
  case 0
  show ?case by (simp add: cv_simps)
next
  case (Suc k)
  show ?case
  proof (cases "old = received_message_count this")
    case True
    from Suc.IH [of "cv_wake tid (cv_wait tid this)"] show ?thesis
      by (simp only: replicate_Suc WaitForMessage_wake [OF True] deliveries.simps cv_simps)
  next
    case False
    then show ?thesis by simp
  qed
qed





subsection \<open>The invariant of the interleavings\<close>

lemma payload_at_append:
  "k \<le> length h \<Longrightarrow> payload_at msg0 (h @ [m]) k = payload_at msg0 h k"
  by (auto simp: payload_at_def nth_append)

lemma read_ok_append:
  "read_ok msg0 c0 h c \<Longrightarrow> read_ok msg0 c0 (h @ [m]) c"
proof (cases c)
  case (In_ProcessMessage vals pc)
  assume r: "read_ok msg0 c0 h c"
  show ?thesis
  proof (cases "pc = PM_returned")
    case True
    with r In_ProcessMessage obtain k where k: "k \<le> length h"
      "vals ! kStateIndexMessage = MsgValue (payload_at msg0 h k)"
      "vals ! kStateIndexMessageCount = IntValue (c0 + of_nat k)"
      by auto
    then have "k \<le> length (h @ [m])"
      "vals ! kStateIndexMessage = MsgValue (payload_at msg0 (h @ [m]) k)"
      by (simp_all add: payload_at_append)
    with k(3) In_ProcessMessage show ?thesis
      by auto
  next
    case False
    with In_ProcessMessage show ?thesis by simp
  qed
qed simp_all

lemma step_thread_same:
  assumes "tid < length (cf_calls cf)"
    and "step_call tid (cf_calls cf ! tid) (cf_shared cf) = (cf_calls cf ! tid, cf_shared cf)"
  shows "step_thread tid cf = cf"
  using assms by (simp add: step_thread_def)

lemma outside_blocked:
  "outside c \<Longrightarrow> sh_mutex sh = Some i \<Longrightarrow> step_call tid c sh = (c, sh)"
  by (cases c) auto

lemma invariant_free_step:
  assumes inv: "interleaving_invariant msg0 c0 cf"
    and free: "sh_mutex (cf_shared cf) = None"
    and tid: "tid < length (cf_calls cf)"
  shows "interleaving_invariant msg0 c0 (step_thread tid cf)"
proof -
  let ?sh = "cf_shared cf" and ?calls = "cf_calls cf"
  let ?h = "sh_delivered ?sh"
  from inv free have cons: "consistent msg0 c0 ?h (length ?h) (sh_system ?sh)"
    and out: "\<forall>j<length ?calls. outside (?calls ! j)"
    and rd: "\<forall>j<length ?calls. read_ok msg0 c0 ?h (?calls ! j)"
    by (simp_all add: interleaving_invariant_def Let_def)
  from out tid have o: "outside (?calls ! tid)"
    by simp
  show ?thesis
  proof (cases "?calls ! tid")
    case (In_HandleMessage m pc)
    with o consider "pc = HM_lock" | "pc = HM_returned"
      by auto
    then show ?thesis
    proof cases
      case 1
      have cons': "consistent msg0 c0 (?h @ [m]) (length ?h) (sh_system ?sh)"
        using cons by (simp add: consistent_def payload_at_append)
      from 1 In_HandleMessage tid free cons' out rd show ?thesis
        by (auto simp: interleaving_invariant_def step_thread_def Let_def nth_list_update
            read_ok_append)
    next
      case 2
      with In_HandleMessage have "step_thread tid cf = cf"
        by (intro step_thread_same [OF tid]) simp
      with inv show ?thesis by simp
    qed
  next
    case (In_ProcessMessage vals pc)
    with o consider "pc = PM_lock" | "pc = PM_returned"
      by auto
    then show ?thesis
    proof cases
      case 1
      from 1 In_ProcessMessage tid free cons out rd show ?thesis
        by (auto simp: interleaving_invariant_def step_thread_def Let_def nth_list_update)
    next
      case 2
      with In_ProcessMessage have "step_thread tid cf = cf"
        by (intro step_thread_same [OF tid]) simp
      with inv show ?thesis by simp
    qed
  next
    case (Thrown e)
    then have "step_thread tid cf = cf"
      by (intro step_thread_same [OF tid]) simp
    with inv show ?thesis by simp
  qed
qed

lemma last_payload:
  "h \<noteq> [] \<Longrightarrow> payload_at msg0 h (length h) = last h"
  by (simp add: payload_at_def last_conv_nth)

lemma count_after_increment:
  "h \<noteq> [] \<Longrightarrow> of_nat (length h - Suc 0) + 1 = (of_nat (length h) :: 32 word)"
  by (cases h) simp_all

lemma invariant_holder_step:
  assumes inv: "interleaving_invariant msg0 c0 cf"
    and held: "sh_mutex (cf_shared cf) = Some tid"
  shows "interleaving_invariant msg0 c0 (step_thread tid cf)"
proof -
  let ?sh = "cf_shared cf" and ?calls = "cf_calls cf"
  let ?h = "sh_delivered ?sh"
  from inv held have tid: "tid < length ?calls"
    and ok: "holder_ok msg0 c0 ?sh (?calls ! tid)"
    and out: "\<forall>j<length ?calls. j \<noteq> tid \<longrightarrow> outside (?calls ! j)"
    and rd: "\<forall>j<length ?calls. read_ok msg0 c0 ?h (?calls ! j)"
    by (simp_all add: interleaving_invariant_def Let_def)
  show ?thesis
  proof (cases "?calls ! tid")
    case (In_HandleMessage m pc)
    show ?thesis
    proof (cases pc)
      case HM_store_message
      with In_HandleMessage ok tid held out rd show ?thesis
        by (auto simp: interleaving_invariant_def step_thread_def Let_def nth_list_update
            consistent_def)
    next
      case HM_increment
      with In_HandleMessage ok tid held out rd show ?thesis
        by (auto simp: interleaving_invariant_def step_thread_def Let_def nth_list_update
            consistent_def last_payload count_after_increment)
    next
      case HM_notify_all
      with In_HandleMessage ok tid held out rd show ?thesis
        by (auto simp: interleaving_invariant_def step_thread_def Let_def nth_list_update
            consistent_def notify_all_def)
    next
      case HM_unlock
      with In_HandleMessage ok tid held out rd show ?thesis
        by (auto simp: interleaving_invariant_def step_thread_def Let_def nth_list_update)
    qed (use In_HandleMessage ok in simp_all)
  next
    case (In_ProcessMessage vals pc)
    show ?thesis
    proof (cases pc)
      case PM_copy_message
      with In_ProcessMessage ok tid held out rd show ?thesis
        by (auto simp: interleaving_invariant_def step_thread_def Let_def nth_list_update
            assign_RosMessage_def get_value_def
            split: sum.splits AbstractValue.splits if_splits)
    next
      case PM_copy_count
      with In_ProcessMessage ok tid held out rd show ?thesis
        by (auto simp: interleaving_invariant_def step_thread_def Let_def nth_list_update
            assign_int_def get_value_def kStateIndexMessage_def kStateIndexMessageCount_def
            split: sum.splits AbstractValue.splits if_splits)
    next
      case PM_unlock
      with In_ProcessMessage ok have "read_ok msg0 c0 ?h (In_ProcessMessage vals PM_returned)"
        by (auto simp: consistent_def Let_def intro!: exI [of _ "length ?h"])
      with PM_unlock In_ProcessMessage ok tid held out rd show ?thesis
        by (auto simp: interleaving_invariant_def step_thread_def Let_def nth_list_update)
    qed (use In_ProcessMessage ok in simp_all)
  next
    case (Thrown e)
    with ok show ?thesis by simp
  qed
qed

lemma invariant_blocked_step:
  assumes inv: "interleaving_invariant msg0 c0 cf"
    and held: "sh_mutex (cf_shared cf) = Some i" and other: "tid \<noteq> i"
  shows "interleaving_invariant msg0 c0 (step_thread tid cf)"
proof (cases "tid < length (cf_calls cf)")
  case True
  with inv held other have "outside (cf_calls cf ! tid)"
    by (simp add: interleaving_invariant_def Let_def)
  from outside_blocked [OF this held] have "step_thread tid cf = cf"
    by (intro step_thread_same [OF True])
  with inv show ?thesis by simp
next
  case False
  with inv show ?thesis by (simp add: step_thread_def)
qed

lemma step_thread_invariant:
  assumes "interleaving_invariant msg0 c0 cf"
  shows "interleaving_invariant msg0 c0 (step_thread tid cf)"
proof (cases "sh_mutex (cf_shared cf)")
  case None
  show ?thesis
  proof (cases "tid < length (cf_calls cf)")
    case True
    from invariant_free_step [OF assms None True] show ?thesis .
  next
    case False
    with assms show ?thesis by (simp add: step_thread_def)
  qed
next
  case (Some i)
  show ?thesis
  proof (cases "tid = i")
    case True
    with invariant_holder_step [OF assms] Some show ?thesis by simp
  next
    case False
    from invariant_blocked_step [OF assms Some False] show ?thesis .
  qed
qed

lemma interleave_invariant:
  "interleaving_invariant msg0 c0 cf \<Longrightarrow> interleaving_invariant msg0 c0 (interleave schedule cf)"
  by (induction schedule arbitrary: cf) (simp_all add: step_thread_invariant)

lemma initial_invariant:
  assumes "sh_mutex (cf_shared cf) = None" and "sh_delivered (cf_shared cf) = []"
    and "\<forall>c\<in>set (cf_calls cf). not_started c"
  shows "interleaving_invariant (received_message (sh_system (cf_shared cf)))
           (received_message_count (sh_system (cf_shared cf))) cf"
proof -
  have "outside c \<and> read_ok msg0 c0 h c" if "not_started c" for c :: "'a Call" and msg0 c0 h
    using that by (cases c) auto
  with assms show ?thesis
    by (auto simp: interleaving_invariant_def Let_def consistent_def payload_at_def)
qed

lemma HandleMessage_uninterrupted:
  assumes "sh_mutex (cf_shared cf) = None" and "tid < length (cf_calls cf)"
    and "cf_calls cf ! tid = In_HandleMessage m HM_lock"
  shows "interleave [tid, tid, tid, tid, tid] cf
           = \<lparr>cf_shared = (cf_shared cf)
                 \<lparr>sh_system := HandleMessage m (sh_system (cf_shared cf)),
                  sh_delivered := sh_delivered (cf_shared cf) @ [m]\<rparr>,
              cf_calls = (cf_calls cf)[tid := In_HandleMessage m HM_returned]\<rparr>"
  using assms by (simp add: step_thread_def HandleMessage_def notify_all_def)

lemma ProcessMessage_uninterrupted:
  assumes "sh_mutex (cf_shared cf) = None" and "tid < length (cf_calls cf)"
    and "cf_calls cf ! tid = In_ProcessMessage vals PM_lock"
  shows "interleave [tid, tid, tid, tid] cf
           = \<lparr>cf_shared = cf_shared cf,
              cf_calls = (cf_calls cf)
                [tid := (case ProcessMessageAndStoreToAbstractState
                                (sh_system (cf_shared cf)) vals of
                           Inl e \<Rightarrow> Thrown e
                         | Inr vals' \<Rightarrow> In_ProcessMessage vals' PM_returned)]\<rparr>"
  using assms
  by (simp add: step_thread_def ProcessMessageAndStoreToAbstractState_def
      split: sum.splits)

section \<open>The claims\<close>

text \<open>C1. In every context that a run of the system reaches, at any time of the context,
  the value that \<^verbatim>\<open>CalcOutputValue\<close> puts on the output port is the payload in slot
  \<^verbatim>\<open>kStateIndexMessage\<close> of the abstract state. The result is the same for every state of
  the system object, so it does not come from \<^verbatim>\<open>received_message_\<close>; evaluating the
  port changes the port's value and nothing else.\<close>

theorem output_is_snapshot:
  assumes "start msg0 tp nh t0 = Inr w0" and "run D ops w0 = Inr w"
  shows "\<exists>p. snapshot_message (h_context w) = Inr (MsgValue p)
           \<and> (\<forall>this. CalcOutputValue this (h_context w) (h_output w) = Inr (MsgValue p))
           \<and> exec D Output w = Inr (w\<lparr>h_output := MsgValue p\<rparr>)"
proof -
  from reachable_counted [OF assms] obtain p k q where
    abs: "abstract_state (ctx_state (h_context w)) = [MsgValue p, IntValue (of_nat k)]"
    and out: "h_output w = MsgValue q"
    unfolding counted_def by blast
  have "snapshot_message (h_context w) = Inr (MsgValue p)"
    by (simp add: snapshot_message_def get_value_def kStateIndexMessage_def abs)
  moreover have "CalcOutputValue this (h_context w) (h_output w) = Inr (MsgValue p)" for this
    by (simp add: CalcOutputValue_def get_value_def kStateIndexMessage_def abs out)
  ultimately show ?thesis
    by auto
qed

theorem output_is_snapshot_witness:
  "start '''' ''chatter'' 1 0 = Inr chatter_start
   \<and> run exact_ops [Deliver ''A'', Poll, Commit, Deliver ''B'', Advance 1] chatter_start
       = Inr chatter_A_then_B
   \<and> received_message (h_system chatter_A_then_B) = ''B''
   \<and> CalcOutputValue (h_system chatter_A_then_B) (h_context chatter_A_then_B)
        (h_output chatter_A_then_B) = Inr (MsgValue ''A'')"
proof -
  have r: "run exact_ops [Deliver ''A'', Poll, Commit, Deliver ''B'', Advance 1] chatter_start
             = Inr chatter_A_then_B"
    by (simp add: chatter_A_then_B_def chatter_start_def exact_ops_def harness_eval)
  have live: "received_message (h_system chatter_A_then_B) = ''B''"
    by (simp add: chatter_A_then_B_def harness_eval)
  from output_is_snapshot [OF chatter_start r] obtain p where
    snap: "snapshot_message (h_context chatter_A_then_B) = Inr (MsgValue p)" and
    out: "CalcOutputValue (h_system chatter_A_then_B) (h_context chatter_A_then_B)
            (h_output chatter_A_then_B) = Inr (MsgValue p)"
    by blast
  from snap have "p = ''A''"
    by (simp add: chatter_A_then_B_def harness_eval)
  with out chatter_start r live show ?thesis
    by simp
qed

text \<open>C2. In every context that a run reaches, \<^verbatim>\<open>DoCalcNextUpdateTime\<close> adds one
  unrestricted-update event, at the context's time plus \<^verbatim>\<open>0.0001\<close>, when the counter of the
  snapshot (slot \<^verbatim>\<open>kStateIndexMessageCount\<close>) differs from \<^verbatim>\<open>received_message_count_\<close>, and
  leaves the events and the time as they are when the two are equal. As long as fewer
  than \<open>2^31\<close> deliveries have been made, the counter of the snapshot is at most the
  live counter. The bound is needed: see the counterexample.\<close>

theorem refresh_iff_counters_differ:
  assumes "start msg0 tp nh t0 = Inr w0" and "run D ops w0 = Inr w"
  shows "\<exists>c. GetMessageCount (h_system w) (h_context w) = Inr c
           \<and> (length (filter is_Deliver ops) < 2 ^ 31
                \<longrightarrow> sint c \<le> sint (received_message_count (h_system w)))
           \<and> (c \<noteq> received_message_count (h_system w)
                \<longrightarrow> DoCalcNextUpdateTime D (h_system w) (h_context w) events time
                    = Inr (events\<lparr>unrestricted_update_events :=
                                    unrestricted_update_events events @ [kTimed]\<rparr>,
                           double_add D (ctx_time (h_context w)) (double_0_0001 D)))
           \<and> (c = received_message_count (h_system w)
                \<longrightarrow> DoCalcNextUpdateTime D (h_system w) (h_context w) events time
                    = Inr (events, time))"
proof -
  let ?n = "length (filter is_Deliver ops)"
  from reachable_counted [OF assms] obtain p k where
    abs: "abstract_state (ctx_state (h_context w)) = [MsgValue p, IntValue (of_nat k)]"
    and k: "k \<le> ?n" and live: "received_message_count (h_system w) = of_nat ?n"
    unfolding counted_def by blast
  have get: "GetMessageCount (h_system w) (h_context w) = Inr (of_nat k)"
    by (simp add: GetMessageCount_def get_value_def kStateIndexMessageCount_def abs)
  have le: "sint (of_nat k :: 32 word) \<le> sint (received_message_count (h_system w))"
    if "?n < 2 ^ 31"
    using that k by (simp add: live sint_of_nat_small)
  show ?thesis
    using get le
    by (auto simp: DoCalcNextUpdateTime_def Let_def add_unrestricted_update_event_def)
qed

theorem refresh_iff_counters_differ_witness:
  "start '''' ''chatter'' 1 0 = Inr chatter_start
   \<and> run exact_ops [Deliver ''A'', Poll, Commit, Deliver ''B'', Deliver ''C''] chatter_start
       = Inr chatter_three
   \<and> length (filter is_Deliver
        [Deliver ''A'', Poll, Commit, Deliver ''B'', Deliver ''C'' :: (string, rat) Op]) < 2 ^ 31
   \<and> GetMessageCount (h_system chatter_three) (h_context chatter_three) = Inr 1
   \<and> received_message_count (h_system chatter_three) = 3
   \<and> sint (1 :: 32 word) \<le> sint (3 :: 32 word)
   \<and> DoCalcNextUpdateTime exact_ops (h_system chatter_three) (h_context chatter_three)
        no_events 0
       = Inr (no_events\<lparr>unrestricted_update_events := [kTimed]\<rparr>, 1 / 10000)
   \<and> run exact_ops [Deliver ''A'', Poll, Commit] chatter_start = Inr chatter_synced
   \<and> GetMessageCount (h_system chatter_synced) (h_context chatter_synced) = Inr 1
   \<and> received_message_count (h_system chatter_synced) = 1
   \<and> DoCalcNextUpdateTime exact_ops (h_system chatter_synced) (h_context chatter_synced)
        no_events 7 = Inr (no_events, 7)"
proof -
  let ?ops3 = "[Deliver ''A'', Poll, Commit, Deliver ''B'', Deliver ''C''] :: (string, rat) Op list"
  have r3: "run exact_ops ?ops3 chatter_start = Inr chatter_three"
    by (simp add: chatter_three_def chatter_start_def exact_ops_def harness_eval)
  have r1: "run exact_ops [Deliver ''A'', Poll, Commit] chatter_start = Inr chatter_synced"
    by (simp add: chatter_synced_def chatter_start_def exact_ops_def harness_eval)
  have n3: "length (filter is_Deliver ?ops3) < 2 ^ 31"
    by simp
  have g3: "GetMessageCount (h_system chatter_three) (h_context chatter_three) = Inr 1"
    by (simp add: chatter_three_def harness_eval)
  have c3: "received_message_count (h_system chatter_three) = 3"
    by (simp add: chatter_three_def chatter_start_def harness_eval)
  have g1: "GetMessageCount (h_system chatter_synced) (h_context chatter_synced) = Inr 1"
    by (simp add: chatter_synced_def harness_eval)
  have c1: "received_message_count (h_system chatter_synced) = 1"
    by (simp add: chatter_synced_def chatter_start_def harness_eval)
  have t3: "ctx_time (h_context chatter_three) = 0"
    by (simp add: chatter_three_def)
  from refresh_iff_counters_differ [OF chatter_start r3, of no_events 0] n3 g3 c3 t3
  have le: "sint (1 :: 32 word) \<le> sint (3 :: 32 word)"
    and p3: "DoCalcNextUpdateTime exact_ops (h_system chatter_three) (h_context chatter_three)
        no_events 0
       = Inr (no_events\<lparr>unrestricted_update_events := [kTimed]\<rparr>, 1 / 10000)"
    by (simp_all add: exact_ops_def no_events_def)
  from refresh_iff_counters_differ [OF chatter_start r1, of no_events 7] g1 c1
  have p1: "DoCalcNextUpdateTime exact_ops (h_system chatter_synced) (h_context chatter_synced)
        no_events 7 = Inr (no_events, 7)"
    by simp
  show ?thesis
    by (intro conjI chatter_start r3 n3 g3 c3 le p3 r1 g1 c1 p1)
qed

text \<open>After \<open>2^31 - 1\<close> deliveries, a commit and one more delivery, the counter of the
  snapshot is the largest \<^verbatim>\<open>int\<close> and the live counter is the smallest.\<close>

theorem snapshot_counter_above_live_counterexample:
  "start '''' ''chatter'' 1 0 = Inr chatter_start
   \<and> run exact_ops (replicate (2 ^ 31 - 1) (Deliver ''A'') @ [Commit, Deliver ''A''])
        chatter_start = Inr chatter_wrapped
   \<and> GetMessageCount (h_system chatter_wrapped) (h_context chatter_wrapped) = Inr 2147483647
   \<and> received_message_count (h_system chatter_wrapped) = 2147483648
   \<and> sint (2147483647 :: 32 word) = 2147483647
   \<and> sint (2147483648 :: 32 word) = - 2147483648
   \<and> \<not> sint (2147483647 :: 32 word) \<le> sint (2147483648 :: 32 word)"
proof -
  have s: "deliveries (replicate (2 ^ 31 - 1) ''A'') (h_system chatter_start)
        = (h_system chatter_start)
            \<lparr>received_message := ''A'', received_message_count := 2147483647\<rparr>"
    by (subst deliveries_eq) (simp_all add: chatter_start_def)
  have r: "run exact_ops (replicate (2 ^ 31 - 1) (Deliver ''A'') @ [Commit, Deliver ''A''])
        chatter_start = Inr chatter_wrapped"
    unfolding run_append run_replicate_Deliver s
    by (simp add: chatter_wrapped_def chatter_start_def harness_eval)
  have g: "GetMessageCount (h_system chatter_wrapped) (h_context chatter_wrapped)
             = Inr 2147483647"
    by (simp add: chatter_wrapped_def harness_eval)
  have c: "received_message_count (h_system chatter_wrapped) = 2147483648"
    by (simp add: chatter_wrapped_def)
  show ?thesis
    by (intro conjI chatter_start r g c) simp_all
qed

text \<open>C3. A system and its context are built, and \<open>N\<close> payloads are delivered,
  \<open>1 \<le> N < 2^31\<close>, with no poll or commit in between. Then a poll reports exactly
  one event. The context is the same after each of the deliveries and after the poll: its
  snapshot holds the initial payload, none of the delivered ones. A commit then sets the
  snapshot to the last payload and to the counter \<open>N\<close>.\<close>

theorem commit_after_deliveries:
  assumes "start msg0 tp nh t0 = Inr w0" and "ms \<noteq> []" and "length ms < 2 ^ 31"
  shows "\<exists>wP wC c.
           run D (map Deliver ms @ [Poll]) w0 = Inr wP
         \<and> unrestricted_update_events (h_events wP) = [kTimed]
         \<and> h_context wP = h_context w0
         \<and> snapshot_message (h_context w0) = Inr (MsgValue msg0)
         \<and> (\<forall>k\<le>length ms. \<exists>w. run D (map Deliver (take k ms)) w0 = Inr w
                                  \<and> h_context w = h_context w0)
         \<and> run D (map Deliver ms @ [Poll, Commit]) w0 = Inr wC
         \<and> abstract_state (ctx_state (h_context wC)) = [MsgValue (last ms), IntValue c]
         \<and> sint c = int (length ms)"
proof -
  let ?sys = "deliveries ms (h_system w0)"
  let ?wN = "w0\<lparr>h_system := ?sys\<rparr>"
  let ?wP = "?wN\<lparr>h_events := add_unrestricted_update_event kTimed no_events,
                 h_time := double_add D (ctx_time (h_context w0)) (double_0_0001 D)\<rparr>"
  let ?c = "of_nat (length ms) :: 32 word"
  let ?wC = "?wP\<lparr>h_context := (h_context w0)\<lparr>ctx_state := (ctx_state (h_context w0))
                 \<lparr>abstract_state := [MsgValue (last ms), IntValue ?c]\<rparr>\<rparr>\<rparr>"
  note snap = start_snapshot [OF assms(1)]
  have cnt: "received_message_count ?sys = ?c"
    by (simp add: count_deliveries snap)
  have sc: "sint ?c = int (length ms)"
    using assms(3) by (rule sint_of_nat_small)
  have "sint ?c \<noteq> sint (0 :: 32 word)"
    using assms(2) by (simp add: sc)
  then have ne: "?c \<noteq> 0"
    by auto
  have poll: "exec D Poll ?wN = Inr ?wP"
    using ne by (simp add: DoCalcNextUpdateTime_def GetMessageCount_def get_value_def
        kStateIndexMessageCount_def snap cnt)
  have commit: "exec D Commit ?wP = Inr ?wC"
    by (simp add: DoCalcUnrestrictedUpdate_def snap ProcessMessage_two_slots cnt
        message_deliveries [OF assms(2)])
  have rP: "run D (map Deliver ms @ [Poll]) w0 = Inr ?wP"
    by (simp only: run_append run_Deliver run.simps poll sum.case)
  have rC: "run D (map Deliver ms @ [Poll, Commit]) w0 = Inr ?wC"
    by (simp only: run_append run_Deliver run.simps poll commit sum.case)
  have ev: "unrestricted_update_events (h_events ?wP) = [kTimed]"
    by (simp add: add_unrestricted_update_event_def no_events_def)
  have s0: "snapshot_message (h_context w0) = Inr (MsgValue msg0)"
    by (simp add: snapshot_message_def get_value_def kStateIndexMessage_def snap)
  have mid: "\<forall>k\<le>length ms. \<exists>w. run D (map Deliver (take k ms)) w0 = Inr w
                                  \<and> h_context w = h_context w0"
    by (simp add: run_Deliver)
  have absC: "abstract_state (ctx_state (h_context ?wC)) = [MsgValue (last ms), IntValue ?c]"
    by simp
  have ctxP: "h_context ?wP = h_context w0"
    by simp
  from rP ev ctxP s0 mid rC absC sc show ?thesis
    by blast
qed

theorem commit_after_deliveries_witness:
  "start '''' ''chatter'' 1 0 = Inr chatter_start
   \<and> [''B'', ''C''] \<noteq> [] \<and> length [''B'', ''C''] < (2 :: nat) ^ 31
   \<and> run exact_ops (map Deliver [''B'', ''C''] @ [Poll]) chatter_start = Inr chatter_polled_BC
   \<and> unrestricted_update_events (h_events chatter_polled_BC) = [kTimed]
   \<and> run exact_ops (map Deliver [''B'', ''C''] @ [Poll, Commit]) chatter_start
       = Inr chatter_committed_BC
   \<and> abstract_state (ctx_state (h_context chatter_committed_BC))
       = [MsgValue ''C'', IntValue 2]"
proof -
  have ne: "[''B'', ''C''] \<noteq> []" and len: "length [''B'', ''C''] < (2 :: nat) ^ 31"
    by simp_all
  have rP: "run exact_ops (map Deliver [''B'', ''C''] @ [Poll]) chatter_start
              = Inr chatter_polled_BC"
    by (simp add: chatter_polled_BC_def chatter_start_def exact_ops_def harness_eval)
  have rC: "run exact_ops (map Deliver [''B'', ''C''] @ [Poll, Commit]) chatter_start
              = Inr chatter_committed_BC"
    by (simp add: chatter_committed_BC_def chatter_polled_BC_def chatter_start_def
        exact_ops_def harness_eval)
  from commit_after_deliveries [OF chatter_start ne len, of exact_ops]
  obtain wP wC c where
    "run exact_ops (map Deliver [''B'', ''C''] @ [Poll]) chatter_start = Inr wP"
    "unrestricted_update_events (h_events wP) = [kTimed]"
    "run exact_ops (map Deliver [''B'', ''C''] @ [Poll, Commit]) chatter_start = Inr wC"
    "abstract_state (ctx_state (h_context wC)) = [MsgValue (last [''B'', ''C'']), IntValue c]"
    "sint c = int (length [''B'', ''C''])"
    by blast
  with rP rC have ev: "unrestricted_update_events (h_events chatter_polled_BC) = [kTimed]"
    and ab: "abstract_state (ctx_state (h_context chatter_committed_BC))
               = [MsgValue ''C'', IntValue c]"
    and c: "sint c = 2"
    by simp_all
  from ab have "c = 2"
    by (simp add: chatter_committed_BC_def)
  with ab have ab2: "abstract_state (ctx_state (h_context chatter_committed_BC))
               = [MsgValue ''C'', IntValue 2]"
    by simp
  show ?thesis
    by (intro conjI chatter_start ne len rP ev rC ab2)
qed

text \<open>For \<open>N = 2^31\<close> the counter that the commit stores is not \<open>N\<close>: an \<^verbatim>\<open>int\<close>
  cannot hold it, and the stored value is \<open>- 2^31\<close>.\<close>

theorem snapshot_counter_not_N_counterexample:
  "start '''' ''chatter'' 1 0 = Inr chatter_start
   \<and> length (replicate (2 ^ 31) ''A'') = 2 ^ 31
   \<and> run exact_ops (map Deliver (replicate (2 ^ 31) ''A'') @ [Poll, Commit]) chatter_start
       = Inr chatter_polled_2_31
   \<and> GetMessageCount (h_system chatter_polled_2_31) (h_context chatter_polled_2_31)
       = Inr 2147483648
   \<and> sint (2147483648 :: 32 word) = - 2147483648
   \<and> sint (2147483648 :: 32 word) \<noteq> int (length (replicate (2 ^ 31) ''A''))"
proof -
  have s: "deliveries (replicate (2 ^ 31) ''A'') (h_system chatter_start)
        = (h_system chatter_start)
            \<lparr>received_message := ''A'', received_message_count := 2147483648\<rparr>"
    by (subst deliveries_eq) (simp_all add: chatter_start_def)
  have r: "run exact_ops (map Deliver (replicate (2 ^ 31) ''A'') @ [Poll, Commit])
        chatter_start = Inr chatter_polled_2_31"
    unfolding run_append run_Deliver s
    by (simp add: chatter_polled_2_31_def chatter_start_def exact_ops_def harness_eval)
  have g: "GetMessageCount (h_system chatter_polled_2_31) (h_context chatter_polled_2_31)
             = Inr 2147483648"
    by (simp add: chatter_polled_2_31_def harness_eval)
  show ?thesis
    by (intro conjI chatter_start r g) simp_all
qed

text \<open>C4. One call of \<^verbatim>\<open>HandleMessage\<close> replaces the stored payload with its argument,
  adds one to the counter in the arithmetic of \<^verbatim>\<open>int\<close> (one more as a number, unless the
  counter is the largest \<^verbatim>\<open>int\<close>) and leaves no thread blocked on the condition variable.
  The constructor sets the counter to 0. No operation but a delivery changes the system
  object, and a call of \<^verbatim>\<open>WaitForMessage\<close> during which nothing is delivered leaves the
  counter as it is. Up to \<open>2^31 - 1\<close> deliveries in all, the counter is the number of
  deliveries made: it never decreases and is never reset.\<close>

theorem deliver_effect:
  "received_message (HandleMessage m this) = m
   \<and> received_message_count (HandleMessage m this) = received_message_count this + 1
   \<and> (sint (received_message_count this) \<noteq> 2 ^ 31 - 1
        \<longrightarrow> sint (received_message_count (HandleMessage m this))
            = sint (received_message_count this) + 1)
   \<and> received_message_condition_variable (HandleMessage m this) = []
   \<and> (RosSubscriberSystem_ctor msg0 tp nh = Inr this0 \<longrightarrow> received_message_count this0 = 0)
   \<and> (\<not> is_Deliver op \<longrightarrow> exec D op w = Inr w' \<longrightarrow> h_system w' = h_system w)
   \<and> received_message_count (snd (WaitForMessage tid old this (replicate k [])))
       = received_message_count this
   \<and> (start msg0 tp nh t0 = Inr w0 \<longrightarrow> run D ops w0 = Inr w1
        \<longrightarrow> length (filter is_Deliver ops) < 2 ^ 31
        \<longrightarrow> sint (received_message_count (h_system w1)) = int (length (filter is_Deliver ops)))"
proof -
  have ctor: "received_message_count this0 = 0"
    if "RosSubscriberSystem_ctor msg0 tp nh = Inr this0"
    using that by (auto simp: RosSubscriberSystem_ctor_def split: if_splits)
  have cnt: "sint (received_message_count (h_system w1)) = int (length (filter is_Deliver ops))"
    if "start msg0 tp nh t0 = Inr w0" "run D ops w0 = Inr w1"
      "length (filter is_Deliver ops) < 2 ^ 31"
    using reachable_counted [OF that(1,2)] that(3)
    by (auto simp: counted_def sint_of_nat_small)
  show ?thesis
    using ctor cnt exec_keeps_system [of op D w w']
    by (simp add: HandleMessage_simps sint_succ WaitForMessage_spurious_count)
qed

theorem deliver_effect_witness:
  "received_message (HandleMessage ''B'' (h_system chatter_synced)) = ''B''
   \<and> sint (received_message_count (h_system chatter_synced)) \<noteq> 2 ^ 31 - 1
   \<and> sint (received_message_count (h_system chatter_synced)) = 1
   \<and> sint (received_message_count (HandleMessage ''B'' (h_system chatter_synced))) = 2
   \<and> received_message_condition_variable
        (HandleMessage ''B'' (cv_wait 5 (h_system chatter_synced))) = []
   \<and> RosSubscriberSystem_ctor '''' ''chatter'' 1 = Inr chatter_system
   \<and> received_message_count chatter_system = 0
   \<and> \<not> is_Deliver (Commit :: (string, rat) Op)
   \<and> start '''' ''chatter'' 1 0 = Inr chatter_start
   \<and> run exact_ops [Deliver ''A'', Poll, Commit] chatter_start = Inr chatter_synced
   \<and> exec exact_ops Commit chatter_synced = Inr chatter_synced
   \<and> length (filter is_Deliver [Deliver ''A'', Poll, Commit :: (string, rat) Op]) < 2 ^ 31"
proof -
  let ?s = "h_system chatter_synced"
  have r: "run exact_ops [Deliver ''A'', Poll, Commit] chatter_start = Inr chatter_synced"
    by (simp add: chatter_synced_def chatter_start_def exact_ops_def harness_eval)
  have e: "exec exact_ops Commit chatter_synced = Inr chatter_synced"
    by (simp add: chatter_synced_def chatter_start_def harness_eval)
  have n: "length (filter is_Deliver [Deliver ''A'', Poll, Commit :: (string, rat) Op]) < 2 ^ 31"
    by simp
  have d: "\<not> is_Deliver (Commit :: (string, rat) Op)"
    by simp
  note th = deliver_effect [of "''B''" ?s "''''" "''chatter''" 1 chatter_system Commit
      exact_ops chatter_synced chatter_synced 5 0 0 0 chatter_start
      "[Deliver ''A'', Poll, Commit]" chatter_synced]
  from th chatter_start r n
  have "sint (received_message_count ?s)
          = int (length (filter is_Deliver [Deliver ''A'', Poll, Commit :: (string, rat) Op]))"
    by blast
  then have one: "sint (received_message_count ?s) = 1"
    by simp
  then have ne: "sint (received_message_count ?s) \<noteq> 2 ^ 31 - 1"
    by simp
  with th have "sint (received_message_count (HandleMessage ''B'' ?s))
                  = sint (received_message_count ?s) + 1"
    by blast
  with one have two: "sint (received_message_count (HandleMessage ''B'' ?s)) = 2"
    by simp
  from th have m: "received_message (HandleMessage ''B'' ?s) = ''B''"
    by blast
  from th chatter_system have z: "received_message_count chatter_system = 0"
    by blast
  have cv: "received_message_condition_variable (HandleMessage ''B'' (cv_wait 5 ?s)) = []"
    using deliver_effect [of "''B''" "cv_wait 5 ?s" "''''" "''chatter''" 1 chatter_system
      Commit exact_ops chatter_synced chatter_synced 5 0 0 0 chatter_start
      "[Deliver ''A'', Poll, Commit]" chatter_synced]
    by blast
  show ?thesis
    by (intro conjI m ne one two cv chatter_system z d chatter_start r e n)
qed

text \<open>At the largest \<^verbatim>\<open>int\<close>, which \<open>2^31 - 1\<close> deliveries reach, one more delivery takes
  the counter to the smallest \<^verbatim>\<open>int\<close>: it decreases.\<close>

theorem deliver_decrements_counterexample:
  "RosSubscriberSystem_ctor '''' ''chatter'' 1 = Inr chatter_system
   \<and> deliveries (replicate (2 ^ 31 - 1) ''A'') chatter_system = chatter_system_at_max
   \<and> sint (received_message_count chatter_system_at_max) = 2147483647
   \<and> sint (received_message_count (HandleMessage ''A'' chatter_system_at_max)) = - 2147483648
   \<and> sint (received_message_count (HandleMessage ''A'' chatter_system_at_max))
       \<noteq> sint (received_message_count chatter_system_at_max) + 1
   \<and> sint (received_message_count (HandleMessage ''A'' chatter_system_at_max))
       < sint (received_message_count chatter_system_at_max)"
  by (intro conjI chatter_system chatter_system_at_max)
    (simp_all add: chatter_system_at_max_def HandleMessage_simps)




text \<open>C7. The constructor fails if and only if the node handle is the null pointer, and
  then with the failure of \<^verbatim>\<open>DRAKE_DEMAND\<close>. With a handle, the constructor and the
  factory return a system, a context can be made for it, and every sequence of deliveries,
  polls, commits, evaluations of the output port, calls of \<^verbatim>\<open>SetDefaultState\<close> and advances
  of time runs to its end without an error; so does \<^verbatim>\<open>GetMessageCount\<close> on the context
  reached.\<close>

theorem construction_fails_iff_null:
  "((\<exists>e. RosSubscriberSystem_ctor msg0 tp nh = Inl e) \<longleftrightarrow> nh = 0)
   \<and> (nh = 0 \<longrightarrow> RosSubscriberSystem_ctor msg0 tp nh = Inl DrakeDemandFailed)
   \<and> (nh \<noteq> 0 \<longrightarrow>
        (\<exists>this. RosSubscriberSystem_ctor msg0 tp nh = Inr this \<and> Make msg0 tp nh = Inr this)
        \<and> (\<exists>w0 w c. start msg0 tp nh t0 = Inr w0 \<and> run D ops w0 = Inr w
              \<and> GetMessageCount (h_system w) (h_context w) = Inr c))"
proof -
  have "\<exists>w0 w c. start msg0 tp nh t0 = Inr w0 \<and> run D ops w0 = Inr w
              \<and> GetMessageCount (h_system w) (h_context w) = Inr c"
    if "nh \<noteq> 0"
  proof -
    from that obtain w0 where s: "start msg0 tp nh t0 = Inr w0"
      by (simp add: start_eq)
    from run_counted [OF start_counted [OF s], of D ops] obtain w where
      r: "run D ops w0 = Inr w" and c: "counted (0 + length (filter is_Deliver ops)) w"
      by blast
    from c have "\<exists>c. GetMessageCount (h_system w) (h_context w) = Inr c"
      by (auto simp: counted_def GetMessageCount_def get_value_def kStateIndexMessageCount_def)
    with s r show ?thesis
      by blast
  qed
  then show ?thesis
    by (auto simp: RosSubscriberSystem_ctor_def Make_def)
qed

theorem construction_fails_iff_null_witness:
  "(0 :: nat) = 0
   \<and> RosSubscriberSystem_ctor '''' ''chatter'' 0
       = (Inl DrakeDemandFailed :: error + string RosSubscriberSystem)
   \<and> (1 :: nat) \<noteq> 0
   \<and> RosSubscriberSystem_ctor '''' ''chatter'' 1 = Inr chatter_system
   \<and> Make '''' ''chatter'' 1 = Inr chatter_system
   \<and> start '''' ''chatter'' 1 0 = Inr chatter_start
   \<and> run exact_ops [Deliver ''A'', Poll, Commit, Deliver ''B'', Output, Reset, Advance 2]
        chatter_start
       = Inr chatter_all_operations
   \<and> GetMessageCount (h_system chatter_all_operations) (h_context chatter_all_operations)
       = Inr 2"
proof -
  let ?ops = "[Deliver ''A'', Poll, Commit, Deliver ''B'', Output, Reset, Advance 2]
                :: (string, rat) Op list"
  note th0 = construction_fails_iff_null [of "''''" "''chatter''" 0 0 exact_ops ?ops]
  note th1 = construction_fails_iff_null [of "''''" "''chatter''" 1 0 exact_ops ?ops]
  from th0 have f: "RosSubscriberSystem_ctor '''' ''chatter'' 0
       = (Inl DrakeDemandFailed :: error + string RosSubscriberSystem)"
    by blast
  have one: "(1 :: nat) \<noteq> 0"
    by simp
  note ok = th1 [THEN conjunct2, THEN conjunct2, rule_format, OF one]
  from ok [THEN conjunct1] chatter_system
  have mk': "Make '''' ''chatter'' 1 = Inr chatter_system"
    by auto
  from ok [THEN conjunct2] obtain w0 w :: "(string, rat) Harness" where
    "start '''' ''chatter'' 1 0 = Inr w0" and "run exact_ops ?ops w0 = Inr w"
    by auto
  with chatter_start have "run exact_ops ?ops chatter_start = Inr w"
    by simp
  moreover have r: "run exact_ops ?ops chatter_start = Inr chatter_all_operations"
    by (simp add: chatter_all_operations_def chatter_start_def exact_ops_def harness_eval)
  ultimately have "w = chatter_all_operations"
    by simp
  have g: "GetMessageCount (h_system chatter_all_operations)
             (h_context chatter_all_operations) = Inr 2"
    by (simp add: chatter_all_operations_def harness_eval)
  show ?thesis
    by (intro conjI refl f one chatter_system mk' chatter_start r g)
qed

text \<open>C8. Threads run calls of \<^verbatim>\<open>HandleMessage\<close> and of
  \<^verbatim>\<open>ProcessMessageAndStoreToAbstractState\<close> on one system, all of them not yet started and
  the mutex free, and their statements are interleaved in any order. Whenever the mutex is
  free, the system holds the payload of the last delivery and the counter of the start
  plus the number of deliveries. Every call of \<^verbatim>\<open>ProcessMessageAndStoreToAbstractState\<close>
  that has returned has stored, for some \<open>k\<close>, the payload of the \<open>k\<close>-th delivery and
  the counter that the \<open>k\<close>-th delivery left: never the payload of one delivery with the
  counter of another.\<close>

theorem no_torn_read:
  assumes "sh_mutex (cf_shared cf0) = None" and "sh_delivered (cf_shared cf0) = []"
    and "\<forall>c\<in>set (cf_calls cf0). not_started c"
    and "interleave schedule cf0 = cf"
  shows "(sh_mutex (cf_shared cf) = None \<longrightarrow>
            received_message (sh_system (cf_shared cf))
              = payload_at (received_message (sh_system (cf_shared cf0)))
                  (sh_delivered (cf_shared cf)) (length (sh_delivered (cf_shared cf)))
          \<and> received_message_count (sh_system (cf_shared cf))
              = received_message_count (sh_system (cf_shared cf0))
                  + of_nat (length (sh_delivered (cf_shared cf))))
       \<and> (\<forall>i<length (cf_calls cf). \<forall>vals.
            cf_calls cf ! i = In_ProcessMessage vals PM_returned \<longrightarrow>
            (\<exists>k\<le>length (sh_delivered (cf_shared cf)).
                vals ! kStateIndexMessage
                  = MsgValue (payload_at (received_message (sh_system (cf_shared cf0)))
                               (sh_delivered (cf_shared cf)) k)
              \<and> vals ! kStateIndexMessageCount
                  = IntValue (received_message_count (sh_system (cf_shared cf0)) + of_nat k)))"
proof -
  let ?msg0 = "received_message (sh_system (cf_shared cf0))"
  let ?c0 = "received_message_count (sh_system (cf_shared cf0))"
  from interleave_invariant [OF initial_invariant [OF assms(1-3)], of schedule] assms(4)
  have inv: "interleaving_invariant ?msg0 ?c0 cf"
    by simp
  have free: "consistent ?msg0 ?c0 (sh_delivered (cf_shared cf))
                (length (sh_delivered (cf_shared cf))) (sh_system (cf_shared cf))"
    if "sh_mutex (cf_shared cf) = None"
    using inv that by (simp add: interleaving_invariant_def Let_def)
  have "read_ok ?msg0 ?c0 (sh_delivered (cf_shared cf)) (cf_calls cf ! i)"
    if "i < length (cf_calls cf)" for i
    using inv that by (simp add: interleaving_invariant_def Let_def)
  then have rd: "\<exists>k\<le>length (sh_delivered (cf_shared cf)).
                vals ! kStateIndexMessage
                  = MsgValue (payload_at ?msg0 (sh_delivered (cf_shared cf)) k)
              \<and> vals ! kStateIndexMessageCount = IntValue (?c0 + of_nat k)"
    if "i < length (cf_calls cf)" "cf_calls cf ! i = In_ProcessMessage vals PM_returned"
    for i vals
    using that by fastforce
  from free rd show ?thesis
    by (simp add: consistent_def)
qed

theorem no_torn_read_witness:
  "sh_mutex (cf_shared race_start) = None \<and> sh_delivered (cf_shared race_start) = []
   \<and> list_all not_started (cf_calls race_start)
   \<and> interleave [0, 0, 2, 0, 0, 0, 2, 1, 2, 1, 2, 2, 1, 1, 1, 1, 1] race_start = race_end
   \<and> cf_calls race_end ! 2 = In_ProcessMessage [MsgValue ''A'', IntValue 1] PM_returned
   \<and> (1 :: nat) \<le> length (sh_delivered (cf_shared race_end))
   \<and> payload_at '''' (sh_delivered (cf_shared race_end)) 1 = ''A''
   \<and> received_message (sh_system (cf_shared race_end)) = ''B''
   \<and> received_message_count (sh_system (cf_shared race_end)) = 2"
proof -
  have a: "sh_mutex (cf_shared race_start) = None" "sh_delivered (cf_shared race_start) = []"
    by (simp_all add: race_start_def)
  have b: "\<forall>c\<in>set (cf_calls race_start). not_started c"
    by (simp add: race_start_def)
  then have b': "list_all not_started (cf_calls race_start)"
    by (simp add: list_all_iff)
  have r: "interleave [0, 0, 2, 0, 0, 0, 2, 1, 2, 1, 2, 2, 1, 1, 1, 1, 1] race_start = race_end"
    by (simp add: race_start_def race_end_def step_thread_def chatter_system_def
        notify_all_def assign_RosMessage_def assign_int_def get_value_def
        kStateIndexMessage_def kStateIndexMessageCount_def)
  have c: "cf_calls race_end ! 2 = In_ProcessMessage [MsgValue ''A'', IntValue 1] PM_returned"
    by (simp add: race_end_def)
  have free: "sh_mutex (cf_shared race_end) = None"
    by (simp add: race_end_def)
  have l: "(1 :: nat) \<le> length (sh_delivered (cf_shared race_end))"
    and p: "payload_at '''' (sh_delivered (cf_shared race_end)) 1 = ''A''"
    by (simp_all add: race_end_def payload_at_def)
  from no_torn_read [OF a b r] free
  have "received_message (sh_system (cf_shared race_end))
          = payload_at (received_message (sh_system (cf_shared race_start)))
              (sh_delivered (cf_shared race_end)) (length (sh_delivered (cf_shared race_end)))"
    and "received_message_count (sh_system (cf_shared race_end))
          = received_message_count (sh_system (cf_shared race_start))
              + of_nat (length (sh_delivered (cf_shared race_end)))"
    by blast+
  then have m: "received_message (sh_system (cf_shared race_end)) = ''B''"
    and n: "received_message_count (sh_system (cf_shared race_end)) = 2"
    by (simp_all add: race_end_def race_start_def chatter_system_def payload_at_def)
  show ?thesis
    by (intro conjI a b' r c l p m n)
qed

text \<open>C9. \<^verbatim>\<open>DoCalcUnrestrictedUpdate\<close> writes slots \<^verbatim>\<open>kStateIndexMessage\<close> and
  \<^verbatim>\<open>kStateIndexMessageCount\<close> of the abstract state, with the payload and the counter of
  the system. The continuous state, the discrete state, the number of abstract slots and
  every other abstract slot are as before; so are the system, the time of the context,
  the events and the output port when the commit is run on a context. A poll changes
  neither the context nor the system nor the output port.\<close>

theorem commit_and_poll_frame:
  "(DoCalcUnrestrictedUpdate this context events state = Inr state' \<longrightarrow>
        continuous_state state' = continuous_state state
      \<and> discrete_state state' = discrete_state state
      \<and> length (abstract_state state') = length (abstract_state state)
      \<and> (\<forall>i. i \<noteq> kStateIndexMessage \<longrightarrow> i \<noteq> kStateIndexMessageCount
              \<longrightarrow> abstract_state state' ! i = abstract_state state ! i)
      \<and> abstract_state state' ! kStateIndexMessage = MsgValue (received_message this)
      \<and> abstract_state state' ! kStateIndexMessageCount
          = IntValue (received_message_count this))
   \<and> (exec D Commit w = Inr w' \<longrightarrow>
        h_system w' = h_system w \<and> ctx_time (h_context w') = ctx_time (h_context w)
      \<and> h_events w' = h_events w \<and> h_time w' = h_time w \<and> h_output w' = h_output w)
   \<and> (exec D Poll w = Inr w'' \<longrightarrow>
        h_context w'' = h_context w \<and> h_system w'' = h_system w
      \<and> h_output w'' = h_output w)"
proof -
  have upd: "continuous_state state' = continuous_state state
      \<and> discrete_state state' = discrete_state state
      \<and> length (abstract_state state') = length (abstract_state state)
      \<and> (\<forall>i. i \<noteq> kStateIndexMessage \<longrightarrow> i \<noteq> kStateIndexMessageCount
              \<longrightarrow> abstract_state state' ! i = abstract_state state ! i)
      \<and> abstract_state state' ! kStateIndexMessage = MsgValue (received_message this)
      \<and> abstract_state state' ! kStateIndexMessageCount
          = IntValue (received_message_count this)"
    if "DoCalcUnrestrictedUpdate this context events state = Inr state'"
    using that
    by (auto simp: DoCalcUnrestrictedUpdate_def ProcessMessageAndStoreToAbstractState_def
        assign_RosMessage_def assign_int_def get_value_def kStateIndexMessage_def
        kStateIndexMessageCount_def
        split: sum.splits if_splits AbstractValue.splits)
  have commit: "h_system w' = h_system w \<and> ctx_time (h_context w') = ctx_time (h_context w)
      \<and> h_events w' = h_events w \<and> h_time w' = h_time w \<and> h_output w' = h_output w"
    if "exec D Commit w = Inr w'"
    using that by (auto split: sum.splits)
  have poll: "h_context w'' = h_context w \<and> h_system w'' = h_system w
      \<and> h_output w'' = h_output w"
    if "exec D Poll w = Inr w''"
    using that by (auto split: sum.splits)
  from upd commit poll show ?thesis
    by blast
qed

theorem commit_and_poll_frame_witness:
  "DoCalcUnrestrictedUpdate (h_system chatter_three) (h_context chatter_three) [kTimed]
       chatter_state3
     = Inr (chatter_state3\<lparr>abstract_state := [MsgValue ''C'', IntValue 3, IntValue 9]\<rparr>)
   \<and> continuous_state (chatter_state3\<lparr>abstract_state := [MsgValue ''C'', IntValue 3, IntValue 9]\<rparr>)
       = [1 / 2]
   \<and> (2 :: nat) \<noteq> kStateIndexMessage \<and> (2 :: nat) \<noteq> kStateIndexMessageCount
   \<and> [MsgValue ''C'', IntValue 3, IntValue 9 :: string AbstractValue] ! 2
       = abstract_state chatter_state3 ! 2
   \<and> exec exact_ops Commit chatter_synced = Inr chatter_synced
   \<and> exec exact_ops Poll chatter_three = Inr chatter_three
   \<and> h_context chatter_three = h_context chatter_three"
proof -
  let ?st = "chatter_state3\<lparr>abstract_state := [MsgValue ''C'', IntValue 3, IntValue 9]\<rparr>"
  have u: "DoCalcUnrestrictedUpdate (h_system chatter_three) (h_context chatter_three) [kTimed]
       chatter_state3 = Inr ?st"
    by (simp add: chatter_state3_def chatter_three_def chatter_start_def
        DoCalcUnrestrictedUpdate_def ProcessMessageAndStoreToAbstractState_def
        assign_RosMessage_def assign_int_def get_value_def kStateIndexMessage_def
        kStateIndexMessageCount_def HandleMessage_def notify_all_def)
  have c: "exec exact_ops Commit chatter_synced = Inr chatter_synced"
    by (simp add: chatter_synced_def chatter_start_def harness_eval)
  have p: "exec exact_ops Poll chatter_three = Inr chatter_three"
    by (simp add: chatter_three_def chatter_start_def exact_ops_def harness_eval)
  have i: "(2 :: nat) \<noteq> kStateIndexMessage" "(2 :: nat) \<noteq> kStateIndexMessageCount"
    by (simp_all add: kStateIndexMessage_def kStateIndexMessageCount_def)
  note th = commit_and_poll_frame [of "h_system chatter_three" "h_context chatter_three"
      "[kTimed]" chatter_state3 ?st exact_ops chatter_synced chatter_synced]
  from th u have cs: "continuous_state ?st = continuous_state chatter_state3"
    and other: "\<forall>i. i \<noteq> kStateIndexMessage \<longrightarrow> i \<noteq> kStateIndexMessageCount
              \<longrightarrow> abstract_state ?st ! i = abstract_state chatter_state3 ! i"
    by blast+
  from cs have cs': "continuous_state ?st = [1 / 2]"
    by (simp add: chatter_state3_def)
  from other i have "abstract_state ?st ! 2 = abstract_state chatter_state3 ! 2"
    by blast
  then have o2: "[MsgValue ''C'', IntValue 3, IntValue 9 :: string AbstractValue] ! 2
       = abstract_state chatter_state3 ! 2"
    by simp
  show ?thesis
    by (intro conjI u cs' i o2 c p refl)
qed

text \<open>C10. The counter is a 32-bit \<^verbatim>\<open>int\<close>. The increment of \<^verbatim>\<open>HandleMessage\<close> is an
  addition modulo \<open>2^32\<close>. Counting from the constructor, the counter is the number of
  deliveries up to \<open>2^31 - 1\<close> of them, the largest \<^verbatim>\<open>int\<close>; the next delivery makes it
  \<open>- 2^31\<close>, negative and smaller than before.\<close>

theorem counter_wraps:
  assumes "RosSubscriberSystem_ctor msg0 tp nh = Inr this0"
  shows "uint (received_message_count (HandleMessage m this))
           = (uint (received_message_count this) + 1) mod 2 ^ 32
       \<and> (length ms < 2 ^ 31
            \<longrightarrow> sint (received_message_count (deliveries ms this0)) = int (length ms))
       \<and> (length ms = 2 ^ 31 - 1
            \<longrightarrow> sint (received_message_count (HandleMessage m (deliveries ms this0))) = - (2 ^ 31)
              \<and> sint (received_message_count (HandleMessage m (deliveries ms this0)))
                  < sint (received_message_count (deliveries ms this0)))"
proof -
  from assms have zero: "received_message_count this0 = 0"
    by (auto simp: RosSubscriberSystem_ctor_def split: if_splits)
  have small: "sint (received_message_count (deliveries ms this0)) = int (length ms)"
    if "length ms < 2 ^ 31"
    using that by (simp add: count_deliveries zero sint_of_nat_small)
  have big: "sint (received_message_count (HandleMessage m (deliveries ms this0))) = - (2 ^ 31)"
    if "length ms = 2 ^ 31 - 1"
    by (simp add: HandleMessage_simps count_deliveries zero that)
  have less: "sint (received_message_count (HandleMessage m (deliveries ms this0)))
                  < sint (received_message_count (deliveries ms this0))"
    if "length ms = 2 ^ 31 - 1"
    using small that by (simp add: big [OF that])
  show ?thesis
    using small big less by (simp add: HandleMessage_simps uint_succ)
qed

theorem counter_wraps_witness:
  "RosSubscriberSystem_ctor '''' ''chatter'' 1 = Inr chatter_system
   \<and> length (replicate (2 ^ 31 - 1) ''A'') < 2 ^ 31
   \<and> length (replicate (2 ^ 31 - 1) ''A'') = 2 ^ 31 - 1
   \<and> sint (received_message_count (deliveries (replicate (2 ^ 31 - 1) ''A'') chatter_system))
       = 2147483647
   \<and> sint (received_message_count
        (HandleMessage ''A'' (deliveries (replicate (2 ^ 31 - 1) ''A'') chatter_system)))
       = - 2147483648
   \<and> uint (received_message_count (HandleMessage ''A'' chatter_system_at_max)) = 2147483648"
proof -
  have l1: "length (replicate (2 ^ 31 - 1) ''A'') < 2 ^ 31"
    and l2: "length (replicate (2 ^ 31 - 1) ''A'') = 2 ^ 31 - 1"
    by simp_all
  note th = counter_wraps [OF chatter_system, of "''A''" chatter_system_at_max
      "replicate (2 ^ 31 - 1) ''A''"]
  from th l1 have a: "sint (received_message_count
      (deliveries (replicate (2 ^ 31 - 1) ''A'') chatter_system)) = 2147483647"
    by simp
  from th l2 have b: "sint (received_message_count
        (HandleMessage ''A'' (deliveries (replicate (2 ^ 31 - 1) ''A'') chatter_system)))
       = - 2147483648"
    by simp
  from th have c: "uint (received_message_count (HandleMessage ''A'' chatter_system_at_max))
      = 2147483648"
    by (simp add: chatter_system_at_max_def)
  show ?thesis
    by (intro conjI chatter_system l1 l2 a b c)
qed

end
